theory Spec2Isabelle
  imports Complex_Main
begin

section \<open>Python values and exceptions\<close>

text \<open>
  The client handles dynamically typed data: the decoded TOML configuration and the decoded
  JSON bodies of the remote service. A finite float is represented by the exact rational
  value of the binary64 number (the sign of zero is not tracked). Dictionaries are
  association lists read with \<open>map_of\<close>; strings are ASCII character lists.
\<close>

datatype pyfloat = Finite rat | PosInf | NegInf | NaN

datatype pyval =
    PNone
  | PBool bool
  | PInt int
  | PFloat pyfloat
  | PStr string
  | PList "pyval list"
  | PDict "(string \<times> pyval) list"

text \<open>Every \<open>raise\<close> the modelled code can reach is a value of this type.\<close>

datatype py_error =
    AssertionError
  | ValidationError
  | FileError
  | KeyError string
  | TypeError
  | ValueError
  | OverflowError
  | JSONDecodeError
  | ConnectionError
  | InvalidJSONError
  | ZeroDivisionError
  | HTTPError int

definition bindE :: "py_error + 'a \<Rightarrow> ('a \<Rightarrow> py_error + 'b) \<Rightarrow> py_error + 'b" where
  "bindE r f = (case r of Inl e \<Rightarrow> Inl e | Inr v \<Rightarrow> f v)"

section \<open>Configuration (class Config)\<close>

record Config =
  title :: string
  credentials :: "(string \<times> string) list"
  defaults :: "(string \<times> pyval) list"

text \<open>
  \<open>validate_creds\<close>: \<open>api_key = creds.get("api_key", "")\<close>, then
  \<open>assert len(api_key) == 40\<close>, then \<open>return creds\<close>.
\<close>

definition validate_creds :: "(string \<times> string) list \<Rightarrow> py_error + (string \<times> string) list" where
  "validate_creds creds =
     (let api_key = (case map_of creds ''api_key'' of Some v \<Rightarrow> v | None \<Rightarrow> '''')
      in if length api_key = 40 then Inr creds else Inl AssertionError)"

text \<open>
  The decoded configuration file, before validation: each of the three top-level entries
  may be missing. The entries that are present already have the shape of the field
  annotations (\<open>str\<close>, \<open>Dict[str, str]\<close>, \<open>Dict[str, Any]\<close>).
\<close>

record raw_config =
  raw_title :: "string option"
  raw_credentials :: "(string \<times> string) list option"
  raw_defaults :: "(string \<times> pyval) list option"

text \<open>
  \<open>Config(**d)\<close>: a required field that is missing, or a validator that raises, makes the
  constructor raise pydantic's ValidationError. The validator of \<open>credentials\<close> runs only
  when the field is present.
\<close>

definition Config_init :: "raw_config \<Rightarrow> py_error + Config" where
  "Config_init d =
     (case (raw_title d, raw_credentials d, raw_defaults d) of
        (Some t, Some c, Some ds) \<Rightarrow>
          (case validate_creds c of
             Inl e \<Rightarrow> Inl ValidationError
           | Inr c' \<Rightarrow> Inr \<lparr>title = t, credentials = c', defaults = ds\<rparr>)
      | _ \<Rightarrow> Inl ValidationError)"

text \<open>\<open>Config.dict()\<close>: the model as a plain dictionary.\<close>

definition Config_dict :: "Config \<Rightarrow> pyval" where
  "Config_dict cfg =
     PDict [(''title'', PStr (title cfg)),
            (''credentials'', PDict (map (\<lambda>(k, v). (k, PStr v)) (credentials cfg))),
            (''defaults'', PDict (defaults cfg))]"

section \<open>Dotted-path lookup (\<open>deep_get\<close>)\<close>

text \<open>\<open>str.split(sep)\<close> for a one-character separator: always at least one segment.\<close>

fun split_on :: "char \<Rightarrow> string \<Rightarrow> string list" where
  "split_on c [] = [[]]"
| "split_on c (x # xs) =
     (if x = c then [] # split_on c xs
      else (case split_on c xs of
              [] \<Rightarrow> [[x]]
            | w # ws \<Rightarrow> (x # w) # ws))"

text \<open>The reducer: \<open>d.get(key, default) if isinstance(d, dict) else default\<close>.\<close>

definition get_step :: "pyval \<Rightarrow> pyval \<Rightarrow> string \<Rightarrow> pyval" where
  "get_step dflt d key =
     (case d of
        PDict kvs \<Rightarrow> (case map_of kvs key of Some v \<Rightarrow> v | None \<Rightarrow> dflt)
      | _ \<Rightarrow> dflt)"

text \<open>\<open>reduce(f, keys.split("."), dictionary)\<close> is a left fold.\<close>

definition deep_get :: "pyval \<Rightarrow> string \<Rightarrow> pyval \<Rightarrow> pyval" where
  "deep_get dictionary keys dflt =
     foldl (get_step dflt) dictionary (split_on CHR ''.'' keys)"

text \<open>
  The lookup as the specification words it: walk the nested mapping one segment at a
  time; the walk is undefined as soon as a node is missing or is not a mapping.
\<close>

fun walk :: "pyval \<Rightarrow> string list \<Rightarrow> pyval option" where
  "walk v [] = Some v"
| "walk (PDict kvs) (k # ks) =
     (case map_of kvs k of None \<Rightarrow> None | Some v \<Rightarrow> walk v ks)"
| "walk _ (k # ks) = None"

definition is_dict :: "pyval \<Rightarrow> bool" where
  "is_dict v = (case v of PDict _ \<Rightarrow> True | _ \<Rightarrow> False)"

section \<open>Python numbers\<close>

text \<open>
  Rounding of an exact rational to binary64, round-half-to-even: 53 significant bits,
  exponents down to the subnormal range, overflow to infinity.
\<close>

definition round_half_even :: "rat \<Rightarrow> int" where
  "round_half_even t =
     (let n = \<lfloor>t\<rfloor>; r = t - of_int n
      in if r < 1 / 2 then n
         else if 1 / 2 < r then n + 1
         else if even n then n else n + 1)"

text \<open>
  The binary exponent of a positive rational \<open>a\<close>: the \<open>e\<close> with
  \<open>2 ^ e \<le> a < 2 ^ (e + 1)\<close>, found from the bit lengths of numerator and denominator.
\<close>

function bit_length :: "int \<Rightarrow> int" where
  "bit_length n = (if n \<le> 0 then 0 else 1 + bit_length (n div 2))"
  by pat_completeness auto
termination
  by (relation "measure nat") auto

definition binary_exponent :: "rat \<Rightarrow> int" where
  "binary_exponent a =
     (let (p, q) = quotient_of a;
          e0 = bit_length p - bit_length q
      in if 2 powi e0 \<le> a then e0 else e0 - 1)"

definition to_binary64 :: "rat \<Rightarrow> pyfloat" where
  "to_binary64 x =
     (if x = 0 then Finite 0
      else let a = \<bar>x\<bar>;
               e = max (binary_exponent a) (- 1022);
               q = 2 powi (e - 52);
               r = of_int (round_half_even (a / q)) * q
           in if 2 powi 1024 \<le> r then (if 0 < x then PosInf else NegInf)
              else Finite (if 0 < x then r else - r))"

text \<open>
  \<open>float(n)\<close> for an integer and \<open>m / n\<close> for two integers: the correctly rounded value,
  OverflowError when it is out of the range of a float.
\<close>

definition float_of_int :: "int \<Rightarrow> py_error + pyfloat" where
  "float_of_int n =
     (case to_binary64 (of_int n) of
        Finite r \<Rightarrow> Inr (Finite r)
      | _ \<Rightarrow> Inl OverflowError)"

definition int_truediv :: "int \<Rightarrow> int \<Rightarrow> py_error + pyfloat" where
  "int_truediv m n =
     (if n = 0 then Inl ZeroDivisionError
      else case to_binary64 (of_int m / of_int n) of
             Finite r \<Rightarrow> Inr (Finite r)
           | _ \<Rightarrow> Inl OverflowError)"

text \<open>IEEE multiplication and division of two floats (no exception on overflow).\<close>

definition float_mul :: "pyfloat \<Rightarrow> pyfloat \<Rightarrow> pyfloat" where
  "float_mul a b =
     (case (a, b) of
        (Finite x, Finite y) \<Rightarrow> to_binary64 (x * y)
      | (NaN, _) \<Rightarrow> NaN
      | (_, NaN) \<Rightarrow> NaN
      | (Finite x, i) \<Rightarrow>
          (if x = 0 then NaN else if 0 < x then i else (if i = PosInf then NegInf else PosInf))
      | (i, Finite y) \<Rightarrow>
          (if y = 0 then NaN else if 0 < y then i else (if i = PosInf then NegInf else PosInf))
      | (i, j) \<Rightarrow> (if i = j then PosInf else NegInf))"

definition float_truediv :: "pyfloat \<Rightarrow> pyfloat \<Rightarrow> py_error + pyfloat" where
  "float_truediv a b =
     (case (a, b) of
        (_, Finite y) \<Rightarrow>
          (if y = 0 then Inl ZeroDivisionError
           else case a of
                  Finite x \<Rightarrow> Inr (to_binary64 (x / y))
                | NaN \<Rightarrow> Inr NaN
                | i \<Rightarrow> Inr (if 0 < y then i else (if i = PosInf then NegInf else PosInf)))
      | (NaN, _) \<Rightarrow> Inr NaN
      | (_, NaN) \<Rightarrow> Inr NaN
      | (Finite x, _) \<Rightarrow> Inr (Finite 0)
      | (_, _) \<Rightarrow> Inr NaN)"

text \<open>
  \<open>v / n\<close> and \<open>v * n\<close> for a dynamically typed \<open>v\<close> and an integer literal \<open>n\<close>.
  A bool is an int; a float operand converts the integer first; a string or a list is
  repeated by \<open>*\<close>; every other combination is a TypeError.
\<close>

definition py_truediv_int :: "pyval \<Rightarrow> int \<Rightarrow> py_error + pyval" where
  "py_truediv_int v n =
     (case v of
        PInt m \<Rightarrow> map_sum id PFloat (int_truediv m n)
      | PBool b \<Rightarrow> map_sum id PFloat (int_truediv (if b then 1 else 0) n)
      | PFloat f \<Rightarrow>
          bindE (float_of_int n) (\<lambda>g. map_sum id PFloat (float_truediv f g))
      | _ \<Rightarrow> Inl TypeError)"

definition py_mul_int :: "pyval \<Rightarrow> int \<Rightarrow> py_error + pyval" where
  "py_mul_int v n =
     (case v of
        PInt m \<Rightarrow> Inr (PInt (m * n))
      | PBool b \<Rightarrow> Inr (PInt ((if b then 1 else 0) * n))
      | PFloat f \<Rightarrow> bindE (float_of_int n) (\<lambda>g. Inr (PFloat (float_mul f g)))
      | PStr s \<Rightarrow> Inr (PStr (concat (replicate (nat n) s)))
      | PList xs \<Rightarrow> Inr (PList (concat (replicate (nat n) xs)))
      | _ \<Rightarrow> Inl TypeError)"

section \<open>Invoices (class Invoice)\<close>

record Invoice =
  inv_id :: pyval
  inv_number :: pyval
  inv_invoice_date :: pyval
  inv_sale_date :: pyval
  inv_net_price :: pyval
  inv_tax_price :: pyval
  inv_gross_price :: pyval
  inv_client_id :: pyval

text \<open>
  \<open>json[key]\<close>: a dictionary raises KeyError on a missing key; a list or a string wants
  an integer index and every other value is not subscriptable (TypeError).
\<close>

definition getitem :: "pyval \<Rightarrow> string \<Rightarrow> py_error + pyval" where
  "getitem json key =
     (case json of
        PDict kvs \<Rightarrow> (case map_of kvs key of Some v \<Rightarrow> Inr v | None \<Rightarrow> Inl (KeyError key))
      | _ \<Rightarrow> Inl TypeError)"

text \<open>\<open>Invoice.__init__\<close>: the eight assignments in the order of the source.\<close>

definition Invoice_init :: "pyval \<Rightarrow> py_error + Invoice" where
  "Invoice_init json =
     bindE (getitem json ''id'') (\<lambda>i.
     bindE (getitem json ''number'') (\<lambda>n.
     bindE (getitem json ''invoice_date'') (\<lambda>idate.
     bindE (getitem json ''sale_date'') (\<lambda>sdate.
     bindE (bindE (getitem json ''net_price'') (\<lambda>v. py_truediv_int v 100)) (\<lambda>net.
     bindE (bindE (getitem json ''tax_price'') (\<lambda>v. py_truediv_int v 100)) (\<lambda>tax.
     bindE (bindE (getitem json ''gross_price'') (\<lambda>v. py_truediv_int v 100)) (\<lambda>gross.
     bindE (getitem json ''client_id'') (\<lambda>c.
       Inr \<lparr>inv_id = i, inv_number = n, inv_invoice_date = idate, inv_sale_date = sdate,
            inv_net_price = net, inv_tax_price = tax, inv_gross_price = gross,
            inv_client_id = c\<rparr>))))))))"

section \<open>Strings of integers\<close>

text \<open>\<open>str(n)\<close> for an integer: decimal digits, a minus sign when negative.\<close>

definition digit_char :: "nat \<Rightarrow> char" where
  "digit_char k = ''0123456789'' ! k"

fun nat_digits :: "nat \<Rightarrow> string" where
  "nat_digits n =
     (if n < 10 then [digit_char n] else nat_digits (n div 10) @ [digit_char (n mod 10)])"

definition str_int :: "int \<Rightarrow> string" where
  "str_int n = (if n < 0 then CHR ''-'' # nat_digits (nat (- n)) else nat_digits (nat n))"

text \<open>
  \<open>s.zfill(width)\<close>: zeros on the left up to the width, after a leading sign if there
  is one.
\<close>

definition zfill :: "nat \<Rightarrow> string \<Rightarrow> string" where
  "zfill width s =
     (if width \<le> length s then s
      else (case s of
              c # rest \<Rightarrow>
                (if c = CHR ''+'' \<or> c = CHR ''-''
                 then c # replicate (width - length s) CHR ''0'' @ rest
                 else replicate (width - length s) CHR ''0'' @ s)
            | [] \<Rightarrow> replicate width CHR ''0''))"

section \<open>Calendar dates (modules datetime and calendar)\<close>

record date =
  year :: int
  month :: int
  day :: int

definition MINYEAR :: int where "MINYEAR = 1"
definition MAXYEAR :: int where "MAXYEAR = 9999"

definition DAYS_IN_MONTH :: "int list" where
  "DAYS_IN_MONTH = [- 1, 31, 28, 31, 30, 31, 30, 31, 31, 30, 31, 30, 31]"

definition DAYS_BEFORE_MONTH :: "int list" where
  "DAYS_BEFORE_MONTH = [- 1, 0, 31, 59, 90, 120, 151, 181, 212, 243, 273, 304, 334]"

text \<open>\<open>year % 4 == 0 and (year % 100 != 0 or year % 400 == 0)\<close>\<close>

definition is_leap :: "int \<Rightarrow> bool" where
  "is_leap y = (y mod 4 = 0 \<and> (y mod 100 \<noteq> 0 \<or> y mod 400 = 0))"

definition days_before_year :: "int \<Rightarrow> int" where
  "days_before_year yr = (let y = yr - 1 in y * 365 + y div 4 - y div 100 + y div 400)"

text \<open>The two month tables are read only at months 1 to 12.\<close>

definition days_in_month :: "int \<Rightarrow> int \<Rightarrow> int" where
  "days_in_month y m = (if m = 2 \<and> is_leap y then 29 else DAYS_IN_MONTH ! nat m)"

definition days_before_month :: "int \<Rightarrow> int \<Rightarrow> int" where
  "days_before_month y m = DAYS_BEFORE_MONTH ! nat m + (if 2 < m \<and> is_leap y then 1 else 0)"

definition ymd2ord :: "int \<Rightarrow> int \<Rightarrow> int \<Rightarrow> int" where
  "ymd2ord y m d = days_before_year y + days_before_month y m + d"

definition DI400Y :: int where "DI400Y = days_before_year 401"
definition DI100Y :: int where "DI100Y = days_before_year 101"
definition DI4Y :: int where "DI4Y = days_before_year 5"
definition MAXORDINAL :: int where "MAXORDINAL = ymd2ord 9999 12 31"

text \<open>
  The inverse of \<open>ymd2ord\<close>, as the library computes it: cycles of 400, 100, 4 and 1
  years by \<open>divmod\<close>, then an estimate of the month, \<open>(n + 50) >> 5\<close>, corrected when
  it is one too large.
\<close>

definition ord2ymd :: "int \<Rightarrow> date" where
  "ord2ymd ordinal =
     (let n = ordinal - 1;
          n400 = n div DI400Y; na = n mod DI400Y;
          n100 = na div DI100Y; nb = na mod DI100Y;
          n4 = nb div DI4Y; nc = nb mod DI4Y;
          n1 = nc div 365; nd = nc mod 365;
          yr = n400 * 400 + 1 + n100 * 100 + n4 * 4 + n1
      in if n1 = 4 \<or> n100 = 4 then \<lparr>year = yr - 1, month = 12, day = 31\<rparr>
         else
           let leapyear = (n1 = 3 \<and> (n4 \<noteq> 24 \<or> n100 = 3));
               mo = (nd + 50) div 32;
               preceding = DAYS_BEFORE_MONTH ! nat mo + (if 2 < mo \<and> leapyear then 1 else 0)
           in if nd < preceding
              then \<lparr>year = yr, month = mo - 1,
                    day = nd - (preceding - (DAYS_IN_MONTH ! nat (mo - 1)
                                  + (if mo - 1 = 2 \<and> leapyear then 1 else 0))) + 1\<rparr>
              else \<lparr>year = yr, month = mo, day = nd - preceding + 1\<rparr>)"

text \<open>\<open>date(year, month, day)\<close> checks its fields and raises ValueError.\<close>

definition date_new :: "int \<Rightarrow> int \<Rightarrow> int \<Rightarrow> py_error + date" where
  "date_new y m d =
     (if MINYEAR \<le> y \<and> y \<le> MAXYEAR \<and> 1 \<le> m \<and> m \<le> 12 \<and> 1 \<le> d \<and> d \<le> days_in_month y m
      then Inr \<lparr>year = y, month = m, day = d\<rparr>
      else Inl ValueError)"

definition toordinal :: "date \<Rightarrow> int" where
  "toordinal d = ymd2ord (year d) (month d) (day d)"

text \<open>\<open>timedelta(days=n)\<close>: the magnitude is bounded.\<close>

definition timedelta_days :: "int \<Rightarrow> py_error + int" where
  "timedelta_days n = (if \<bar>n\<bar> \<le> 999999999 then Inr n else Inl OverflowError)"

text \<open>
  \<open>date + timedelta\<close>: \<open>o = self.toordinal() + other.days\<close>; the date of that ordinal
  when \<open>0 < o <= _MAXORDINAL\<close>, else OverflowError. \<open>date - timedelta\<close> adds the negated
  number of days.
\<close>

definition date_add :: "date \<Rightarrow> int \<Rightarrow> py_error + date" where
  "date_add d days =
     (let ordinal = toordinal d + days
      in if 0 < ordinal \<and> ordinal \<le> MAXORDINAL then Inr (ord2ymd ordinal)
         else Inl OverflowError)"

definition date_sub :: "date \<Rightarrow> int \<Rightarrow> py_error + date" where
  "date_sub d days = date_add d (- days)"

text \<open>\<open>calendar.monthrange(year, month)[1]\<close>, the number of days of the month.\<close>

definition isleap :: "int \<Rightarrow> bool" where
  "isleap y = (y mod 4 = 0 \<and> (y mod 100 \<noteq> 0 \<or> y mod 400 = 0))"

definition mdays :: "int list" where
  "mdays = [0, 31, 28, 31, 30, 31, 30, 31, 31, 30, 31, 30, 31]"

definition monthrange_ndays :: "int \<Rightarrow> int \<Rightarrow> py_error + int" where
  "monthrange_ndays y m =
     (if \<not> (1 \<le> m \<and> m \<le> 12) then Inl ValueError
      else Inr (mdays ! nat m + (if m = 2 \<and> isleap y then 1 else 0)))"

text \<open>
  \<open>datetime.strptime(s, "%Y-%m-%d").date()\<close>. The format is compiled to the regular
  expression \<open>(\d\d\d\d)-(1[0-2]|0[1-9]|[1-9])-(3[0-1]|[1-2]\d|0[1-9]|[1-9]| [1-9])\<close>,
  which must match the whole string; the fields must then form a date.
\<close>

definition ascii_digit :: "char \<Rightarrow> bool" where
  "ascii_digit c = ((48::nat) \<le> of_char c \<and> of_char c \<le> (57::nat))"

definition digit_val :: "char \<Rightarrow> int" where
  "digit_val c = int (of_char c) - 48"

definition match_month :: "string \<Rightarrow> int option" where
  "match_month s =
     (case s of
        [a, b] \<Rightarrow>
          (if a = CHR ''1'' \<and> b \<in> set ''012'' then Some (10 + digit_val b)
           else if a = CHR ''0'' \<and> b \<in> set ''123456789'' then Some (digit_val b)
           else None)
      | [a] \<Rightarrow> (if a \<in> set ''123456789'' then Some (digit_val a) else None)
      | _ \<Rightarrow> None)"

definition match_day :: "string \<Rightarrow> int option" where
  "match_day s =
     (case s of
        [a, b] \<Rightarrow>
          (if a = CHR ''3'' \<and> b \<in> set ''01'' then Some (30 + digit_val b)
           else if a \<in> set ''12'' \<and> ascii_digit b then Some (10 * digit_val a + digit_val b)
           else if a = CHR ''0'' \<and> b \<in> set ''123456789'' then Some (digit_val b)
           else if a = CHR 0x20 \<and> b \<in> set ''123456789'' then Some (digit_val b)
           else None)
      | [a] \<Rightarrow> (if a \<in> set ''123456789'' then Some (digit_val a) else None)
      | _ \<Rightarrow> None)"

definition strptime_ymd :: "string \<Rightarrow> py_error + date" where
  "strptime_ymd s =
     (case s of
        y1 # y2 # y3 # y4 # dash # rest \<Rightarrow>
          (if ascii_digit y1 \<and> ascii_digit y2 \<and> ascii_digit y3 \<and> ascii_digit y4 \<and> dash = CHR ''-''
           then (case split_on CHR ''-'' rest of
                   [ms, ds] \<Rightarrow>
                     (case (match_month ms, match_day ds) of
                        (Some m, Some d) \<Rightarrow>
                          date_new (1000 * digit_val y1 + 100 * digit_val y2
                                     + 10 * digit_val y3 + digit_val y4) m d
                      | _ \<Rightarrow> Inl ValueError)
                 | _ \<Rightarrow> Inl ValueError)
           else Inl ValueError)
      | _ \<Rightarrow> Inl ValueError)"

section \<open>Date derivation (class Client)\<close>

text \<open>
  \<open>_get_default_invoice_date\<close>, with the date read by \<open>datetime.date.today()\<close> as an
  argument. \<open>first = today.replace(day=1)\<close>; the target year and month follow the four
  branches of the source; the day is \<open>calendar.monthrange(year, month)[1]\<close>; the result
  is \<open>f"{year}-{month}-{day}"\<close> after \<open>zfill(2)\<close> of month and day.
\<close>

definition get_default_invoice_date :: "date \<Rightarrow> py_error + string" where
  "get_default_invoice_date today =
     bindE (date_new (year today) (month today) 1) (\<lambda>first.
     bindE (if month today = 1
            then (if day today < 15 then Inr (year today - 1, 12)
                  else Inr (year today, month today))
            else (if day today < 15
                  then bindE (bindE (timedelta_days 1) (date_sub first))
                         (\<lambda>prev. Inr (year today, month prev))
                  else Inr (year today, month today))) (\<lambda>(y, m).
     bindE (monthrange_ndays y m) (\<lambda>d.
       Inr (str_int y @ ''-'' @ zfill 2 (str_int m) @ ''-'' @ zfill 2 (str_int d)))))"

text \<open>
  \<open>_get_payment_date\<close>: parse, add \<open>timedelta(days=payment_days)\<close>, format as above.
\<close>

definition get_payment_date :: "string \<Rightarrow> int \<Rightarrow> py_error + string" where
  "get_payment_date invoice_date payment_days =
     bindE (strptime_ymd invoice_date) (\<lambda>date_obj.
     bindE (bindE (timedelta_days payment_days) (date_add date_obj)) (\<lambda>payment_date_obj.
       Inr (str_int (year payment_date_obj) @ ''-''
            @ zfill 2 (str_int (month payment_date_obj)) @ ''-''
            @ zfill 2 (str_int (day payment_date_obj)))))"

section \<open>The remote service (module requests)\<close>

text \<open>
  A string the client builds with \<open>str(x)\<close> of a dynamically typed value is kept as the
  list of its pieces, in the order of the concatenation.
\<close>

datatype pystr = Lit string | StrOf pyval

datatype http_method = GET | POST | DELETE

record service_entry =
  svc_name :: pyval
  svc_gross_price :: pyval
  svc_tax_symbol :: int
  svc_gtu_id :: pyval

text \<open>The dictionary under the key \<open>"invoice"\<close> of the creation payload.\<close>

record invoice_payload =
  p_client_id :: pystr
  p_payment_method :: string
  p_sale_date :: string
  p_invoice_date :: string
  p_payment_date :: string
  p_services :: "service_entry list"

record deliver_data =
  d_print_type :: string
  d_locale :: string
  d_recipient :: pyval
  d_send_copy :: bool

record request =
  req_method :: http_method
  req_url :: "pystr list"
  req_headers :: "(string \<times> string) list"
  req_json :: "invoice_payload option"
  req_data :: "deliver_data option"

text \<open>A response: its status code and its body, decoded when it is JSON.\<close>

record response =
  status_code :: int
  json_body :: "pyval option"

text \<open>
  \<open>Response.raise_for_status()\<close> raises HTTPError for the statuses 400 to 599;
  \<open>Response.ok\<close> is true when \<open>raise_for_status\<close> does not raise.
\<close>

definition raise_for_status :: "response \<Rightarrow> py_error + unit" where
  "raise_for_status r =
     (if 400 \<le> status_code r \<and> status_code r < 600 then Inl (HTTPError (status_code r))
      else Inr ())"

definition ok :: "response \<Rightarrow> bool" where
  "ok r = (case raise_for_status r of Inl e \<Rightarrow> False | Inr u \<Rightarrow> True)"

definition response_json :: "response \<Rightarrow> py_error + pyval" where
  "response_json r = (case json_body r of None \<Rightarrow> Inl JSONDecodeError | Some v \<Rightarrow> Inr v)"

text \<open>
  What the client reads from outside: the configuration file as \<open>toml.load\<close> decodes it
  (or the error of reading it), the date of the system clock, and the remote service,
  which answers a request knowing the requests it received before (or the call fails
  without a response).
\<close>

record world =
  config_toml :: "py_error + raw_config"
  clock_today :: date
  remote :: "request list \<Rightarrow> request \<Rightarrow> py_error + response"

definition API_URL :: string where
  "API_URL = ''https://api.infakt.pl:443/api/v3/''"

section \<open>The client (class Client)\<close>

definition get_config :: "world \<Rightarrow> py_error + Config" where
  "get_config w = bindE (config_toml w) Config_init"

definition get_headers :: "world \<Rightarrow> py_error + (string \<times> string) list" where
  "get_headers w =
     bindE (get_config w) (\<lambda>cfg.
       case map_of (credentials cfg) ''api_key'' of
         None \<Rightarrow> Inl (KeyError ''api_key'')
       | Some k \<Rightarrow> Inr [(''X-inFakt-ApiKey'', k)])"

definition get_default_from_config :: "world \<Rightarrow> string \<Rightarrow> py_error + pyval" where
  "get_default_from_config w v =
     bindE (get_config w) (\<lambda>cfg.
       Inr (deep_get (Config_dict cfg) (''defaults'' @ ''.'' @ v) PNone))"

text \<open>The four requests of the client, as the calls of \<open>requests\<close> build them.\<close>

definition retrieve_request :: "(string \<times> string) list \<Rightarrow> pyval \<Rightarrow> request" where
  "retrieve_request hs invoice_number =
     \<lparr>req_method = GET,
      req_url = [Lit (API_URL @ ''invoices/''), StrOf invoice_number, Lit ''.json''],
      req_headers = hs, req_json = None, req_data = None\<rparr>"

definition deliver_request :: "(string \<times> string) list \<Rightarrow> pyval \<Rightarrow> pyval \<Rightarrow> bool \<Rightarrow> request" where
  "deliver_request hs invoice_number email send_copy =
     \<lparr>req_method = POST,
      req_url = [Lit (API_URL @ ''invoices/''), StrOf invoice_number,
                 Lit ''/deliver_via_email.json''],
      req_headers = hs, req_json = None,
      req_data = Some \<lparr>d_print_type = ''original'', d_locale = ''pe'',
                       d_recipient = email, d_send_copy = send_copy\<rparr>\<rparr>"

definition create_request :: "(string \<times> string) list \<Rightarrow> invoice_payload \<Rightarrow> request" where
  "create_request hs payload =
     \<lparr>req_method = POST, req_url = [Lit (API_URL @ ''invoices.json'')],
      req_headers = hs, req_json = Some payload, req_data = None\<rparr>"

definition delete_request :: "(string \<times> string) list \<Rightarrow> pyval \<Rightarrow> request" where
  "delete_request hs invoice_number =
     \<lparr>req_method = DELETE,
      req_url = [Lit (API_URL @ ''invoices/''), StrOf invoice_number, Lit ''.json''],
      req_headers = hs, req_json = None, req_data = None\<rparr>"

text \<open>
  \<open>requests\<close> encodes the \<open>json=\<close> argument with \<open>json.dumps(..., allow_nan=False)\<close>
  while it prepares the request, and raises InvalidJSONError when a float in it is an
  infinity or not a number; nothing is sent then.
\<close>

fun json_encodable :: "pyval \<Rightarrow> bool" where
  "json_encodable (PFloat f) = (case f of Finite x \<Rightarrow> True | _ \<Rightarrow> False)"
| "json_encodable (PList xs) = list_all json_encodable xs"
| "json_encodable (PDict kvs) = list_all (\<lambda>kv. json_encodable (snd kv)) kvs"
| "json_encodable _ = True"

definition payload_encodable :: "invoice_payload \<Rightarrow> bool" where
  "payload_encodable payload =
     list_all (\<lambda>s. json_encodable (svc_name s) \<and> json_encodable (svc_gross_price s)
                 \<and> json_encodable (svc_gtu_id s))
       (p_services payload)"

text \<open>
  Every operation takes the requests sent so far and returns its result with the
  requests sent after it: the new request is appended when the call is made.
\<close>

definition get_invoice ::
  "world \<Rightarrow> pyval \<Rightarrow> request list \<Rightarrow> (py_error + Invoice) \<times> request list" where
  "get_invoice w invoice_number tr =
     (case get_headers w of
        Inl e \<Rightarrow> (Inl e, tr)
      | Inr hs \<Rightarrow>
          let req = retrieve_request hs invoice_number
          in (case remote w tr req of
                Inl e \<Rightarrow> (Inl e, tr @ [req])
              | Inr resp \<Rightarrow> (bindE (response_json resp) Invoice_init, tr @ [req])))"

definition send_invoice ::
  "world \<Rightarrow> pyval \<Rightarrow> string option \<Rightarrow> bool \<Rightarrow> request list \<Rightarrow> (py_error + bool) \<times> request list" where
  "send_invoice w invoice_number email send_copy tr =
     (case (case email of
              Some e \<Rightarrow> Inr (PStr e)
            | None \<Rightarrow> get_default_from_config w ''invoice.client_email'') of
        Inl e \<Rightarrow> (Inl e, tr)
      | Inr email' \<Rightarrow>
          (case get_headers w of
             Inl e \<Rightarrow> (Inl e, tr)
           | Inr hs \<Rightarrow>
               let req = deliver_request hs invoice_number email' send_copy
               in (case remote w tr req of
                     Inl e \<Rightarrow> (Inl e, tr @ [req])
                   | Inr resp \<Rightarrow> (Inr (if \<not> ok resp then False else True), tr @ [req]))))"

text \<open>
  \<open>create_invoice\<close> up to the payload (the statements before \<open>requests.post\<close>). An
  optional argument that is \<open>None\<close> is the argument left out; \<open>payment_days\<close> left
  out is 14. The default payment date is computed before the three dates are chosen.
\<close>

definition create_invoice_payload ::
  "world \<Rightarrow> pyval \<Rightarrow> string option \<Rightarrow> int option \<Rightarrow> string option \<Rightarrow> string option
     \<Rightarrow> string option \<Rightarrow> int option \<Rightarrow> int option \<Rightarrow> py_error + invoice_payload" where
  "create_invoice_payload w gross_price service_name client_id sale_date invoice_date
       payment_date payment_days gtu_id =
     bindE (case service_name of
              Some s \<Rightarrow> Inr (PStr s)
            | None \<Rightarrow> get_default_from_config w ''invoice.service.name'') (\<lambda>service_name'.
     bindE (case client_id of
              Some c \<Rightarrow> Inr (PInt c)
            | None \<Rightarrow> get_default_from_config w ''invoice.client_id'') (\<lambda>client_id'.
     bindE (case gtu_id of
              Some g \<Rightarrow> Inr (PInt g)
            | None \<Rightarrow> get_default_from_config w ''invoice.service.gtu_id'') (\<lambda>gtu_id'.
     bindE (get_default_invoice_date (clock_today w)) (\<lambda>default_invoice_date.
     bindE (get_payment_date default_invoice_date
              (case payment_days of Some n \<Rightarrow> n | None \<Rightarrow> 14)) (\<lambda>default_payment_date.
     bindE (py_mul_int gross_price 100) (\<lambda>gross.
       Inr \<lparr>p_client_id = StrOf client_id',
            p_payment_method = ''transfer'',
            p_sale_date = (case sale_date of Some s \<Rightarrow> s | None \<Rightarrow> default_invoice_date),
            p_invoice_date =
              (case invoice_date of Some s \<Rightarrow> s | None \<Rightarrow> default_invoice_date),
            p_payment_date =
              (case payment_date of Some s \<Rightarrow> s | None \<Rightarrow> default_payment_date),
            p_services = [\<lparr>svc_name = service_name', svc_gross_price = gross,
                            svc_tax_symbol = 23, svc_gtu_id = gtu_id'\<rparr>]\<rparr>))))))"

text \<open>
  \<open>create_invoice\<close>: the payload, the headers, \<open>requests.post\<close> (which first
  encodes the payload and sends the request only when that succeeds),
  \<open>response.raise_for_status()\<close>, then \<open>Invoice(response.json())\<close>.
\<close>

definition create_invoice ::
  "world \<Rightarrow> pyval \<Rightarrow> string option \<Rightarrow> int option \<Rightarrow> string option \<Rightarrow> string option
     \<Rightarrow> string option \<Rightarrow> int option \<Rightarrow> int option \<Rightarrow> request list
     \<Rightarrow> (py_error + Invoice) \<times> request list" where
  "create_invoice w gross_price service_name client_id sale_date invoice_date
       payment_date payment_days gtu_id tr =
     (case create_invoice_payload w gross_price service_name client_id sale_date invoice_date
             payment_date payment_days gtu_id of
        Inl e \<Rightarrow> (Inl e, tr)
      | Inr payload \<Rightarrow>
          (case get_headers w of
             Inl e \<Rightarrow> (Inl e, tr)
           | Inr hs \<Rightarrow>
               if \<not> payload_encodable payload then (Inl InvalidJSONError, tr)
               else
                 let req = create_request hs payload
                 in (case remote w tr req of
                       Inl e \<Rightarrow> (Inl e, tr @ [req])
                     | Inr resp \<Rightarrow>
                         (bindE (raise_for_status resp) (\<lambda>u.
                            bindE (response_json resp) Invoice_init), tr @ [req]))))"

definition delete_invoice ::
  "world \<Rightarrow> pyval \<Rightarrow> request list \<Rightarrow> (py_error + bool) \<times> request list" where
  "delete_invoice w invoice_number tr =
     (case get_headers w of
        Inl e \<Rightarrow> (Inl e, tr)
      | Inr hs \<Rightarrow>
          let req = delete_request hs invoice_number
          in (case remote w tr req of
                Inl e \<Rightarrow> (Inl e, tr @ [req])
              | Inr resp \<Rightarrow> (Inr (ok resp), tr @ [req])))"

text \<open>
  \<open>create_and_send_invoice\<close>: \<open>invoice = self.create_invoice(gross_price, **kwargs)\<close>,
  then \<open>self.send_invoice(invoice.id, email=email, send_copy=send_copy)\<close>.
\<close>

definition create_and_send_invoice ::
  "world \<Rightarrow> pyval \<Rightarrow> string option \<Rightarrow> bool \<Rightarrow> string option \<Rightarrow> int option \<Rightarrow> string option
     \<Rightarrow> string option \<Rightarrow> string option \<Rightarrow> int option \<Rightarrow> int option \<Rightarrow> request list
     \<Rightarrow> (py_error + bool) \<times> request list" where
  "create_and_send_invoice w gross_price email send_copy service_name client_id sale_date
       invoice_date payment_date payment_days gtu_id tr =
     (case create_invoice w gross_price service_name client_id sale_date invoice_date
             payment_date payment_days gtu_id tr of
        (Inl e, tr') \<Rightarrow> (Inl e, tr')
      | (Inr invoice, tr') \<Rightarrow> send_invoice w (inv_id invoice) email send_copy tr')"

section \<open>Notions of the specification\<close>

text \<open>The eight keys an invoice is built from, in the order of the assignments.\<close>

definition invoice_keys :: "string list" where
  "invoice_keys = [''id'', ''number'', ''invoice_date'', ''sale_date'', ''net_price'',
                   ''tax_price'', ''gross_price'', ''client_id'']"

text \<open>The value can be divided by 100: it is a number whose quotient is a float.\<close>

definition divides_by_100 :: "pyval \<Rightarrow> bool" where
  "divides_by_100 v = (case py_truediv_int v 100 of Inl e \<Rightarrow> False | Inr r \<Rightarrow> True)"

text \<open>
  The calendar of the specification: the last day of a month, a date of the calendar
  (in the years 1 to 9999 for a date of the \<open>datetime\<close> module), and the day after a
  date, which carries into the next month and the next year.
\<close>

definition last_day :: "int \<Rightarrow> int \<Rightarrow> int" where
  "last_day y m =
     (if m = 2 then (if is_leap y then 29 else 28)
      else if m = 4 \<or> m = 6 \<or> m = 9 \<or> m = 11 then 30
      else 31)"

definition calendar_date :: "date \<Rightarrow> bool" where
  "calendar_date d =
     (1 \<le> year d \<and> 1 \<le> month d \<and> month d \<le> 12 \<and>
      1 \<le> day d \<and> day d \<le> last_day (year d) (month d))"

definition valid_date :: "date \<Rightarrow> bool" where
  "valid_date d = (calendar_date d \<and> year d \<le> 9999)"

definition next_day :: "date \<Rightarrow> date" where
  "next_day d =
     (if day d < last_day (year d) (month d) then d\<lparr>day := day d + 1\<rparr>
      else if month d < 12 then \<lparr>year = year d, month = month d + 1, day = 1\<rparr>
      else \<lparr>year = year d + 1, month = 1, day = 1\<rparr>)"

text \<open>
  The date \<open>n\<close> days after \<open>d\<close> (before it, when \<open>n\<close> is negative): reached from
  \<open>d\<close>, or reaching \<open>d\<close>, by that many steps of \<open>next_day\<close>.
\<close>

definition days_after :: "date \<Rightarrow> int \<Rightarrow> date \<Rightarrow> bool" where
  "days_after d n r =
     (if 0 \<le> n then r = (next_day ^^ nat n) d else d = (next_day ^^ nat (- n)) r)"

text \<open>The form \<open>YYYY-MM-DD\<close>: four digits, two digits, two digits, zero-padded.\<close>

definition two_digits :: "int \<Rightarrow> string" where
  "two_digits n = [digit_char (nat n div 10 mod 10), digit_char (nat n mod 10)]"

definition four_digits :: "int \<Rightarrow> string" where
  "four_digits n =
     [digit_char (nat n div 1000 mod 10), digit_char (nat n div 100 mod 10),
      digit_char (nat n div 10 mod 10), digit_char (nat n mod 10)]"

definition iso_format :: "int \<Rightarrow> int \<Rightarrow> int \<Rightarrow> string" where
  "iso_format y m d = four_digits y @ ''-'' @ two_digits m @ ''-'' @ two_digits d"

text \<open>
  The month an invoice is dated in by default, as the specification words it: December
  of the previous year in the first half of January, the previous month in the first
  half of any other month, and the current month from the 15th on.
\<close>

definition target_month :: "date \<Rightarrow> int \<times> int" where
  "target_month today =
     (if month today = 1 \<and> day today < 15 then (year today - 1, 12)
      else if month today = 1 then (year today, 1)
      else if day today < 15 then (year today, month today - 1)
      else (year today, month today))"

text \<open>The first of the eight keys that the mapping does not have, if there is one.\<close>

definition first_missing_key :: "(string \<times> pyval) list \<Rightarrow> string option" where
  "first_missing_key kvs = find (\<lambda>k. map_of kvs k = None) invoice_keys"

section \<open>A sample configuration and service\<close>

definition sample_key :: string where
  "sample_key = ''0123456789abcdef0123456789abcdef01234567''"

definition sample_toml :: raw_config where
  "sample_toml =
     \<lparr>raw_title = Some ''inFakt'',
      raw_credentials = Some [(''api_key'', sample_key)],
      raw_defaults = Some
        [(''invoice'',
          PDict [(''client_id'', PInt 7),
                 (''client_email'', PStr ''client@example.com''),
                 (''service'', PDict [(''name'', PStr ''Consulting''), (''gtu_id'', PInt 12)])])]\<rparr>"

definition sample_config :: Config where
  "sample_config =
     \<lparr>title = ''inFakt'',
      credentials = [(''api_key'', sample_key)],
      defaults =
        [(''invoice'',
          PDict [(''client_id'', PInt 7),
                 (''client_email'', PStr ''client@example.com''),
                 (''service'', PDict [(''name'', PStr ''Consulting''), (''gtu_id'', PInt 12)])])]\<rparr>"

definition sample_body :: pyval where
  "sample_body =
     PDict [(''id'', PInt 4711), (''number'', PStr ''12/03/2024''),
            (''invoice_date'', PStr ''2024-03-31''), (''sale_date'', PStr ''2024-03-31''),
            (''net_price'', PInt 23264), (''tax_price'', PInt 5351),
            (''gross_price'', PInt 28615), (''client_id'', PInt 7)]"

text \<open>
  A service that accepts a creation (201 with the invoice), refuses a deletion (404) and
  accepts everything else (200); and one that refuses a creation (422).
\<close>

definition sample_remote :: "request list \<Rightarrow> request \<Rightarrow> py_error + response" where
  "sample_remote tr req =
     (if req_method req = DELETE then Inr \<lparr>status_code = 404, json_body = None\<rparr>
      else if req_json req \<noteq> None then Inr \<lparr>status_code = 201, json_body = Some sample_body\<rparr>
      else Inr \<lparr>status_code = 200, json_body = Some (PDict [])\<rparr>)"

definition refusing_remote :: "request list \<Rightarrow> request \<Rightarrow> py_error + response" where
  "refusing_remote tr req = Inr \<lparr>status_code = 422, json_body = Some (PDict [])\<rparr>"

text \<open>A service that answers every request with 304 and the invoice in the body.\<close>

definition not_modified_remote :: "request list \<Rightarrow> request \<Rightarrow> py_error + response" where
  "not_modified_remote tr req = Inr \<lparr>status_code = 304, json_body = Some sample_body\<rparr>"

text \<open>A body that lacks three keys and whose net price is a string.\<close>

definition malformed_body :: "(string \<times> pyval) list" where
  "malformed_body =
     [(''id'', PInt 4711), (''number'', PStr ''12/03/2024''),
      (''invoice_date'', PStr ''2024-03-31''), (''sale_date'', PStr ''2024-03-31''),
      (''net_price'', PStr ''232.64'')]"

definition sample_world :: world where
  "sample_world =
     \<lparr>config_toml = Inr sample_toml,
      clock_today = \<lparr>year = 2024, month = 3, day = 20\<rparr>,
      remote = sample_remote\<rparr>"

definition refusing_world :: world where
  "refusing_world =
     \<lparr>config_toml = Inr sample_toml,
      clock_today = \<lparr>year = 2024, month = 3, day = 20\<rparr>,
      remote = refusing_remote\<rparr>"

definition not_modified_world :: world where
  "not_modified_world =
     \<lparr>config_toml = Inr sample_toml,
      clock_today = \<lparr>year = 2024, month = 3, day = 20\<rparr>,
      remote = not_modified_remote\<rparr>"

section \<open>Sequencing of fallible steps\<close>

lemma bindE_Inr_iff: "bindE r f = Inr y \<longleftrightarrow> (\<exists>x. r = Inr x \<and> f x = Inr y)"
  by (cases r) (simp_all add: bindE_def)

lemma bindE_Inl: "bindE (Inl e) f = Inl e"
  by (simp add: bindE_def)

lemma bindE_Inr: "bindE (Inr x) f = f x"
  by (simp add: bindE_def)

section \<open>Properties of the settings resolver\<close>

lemma get_step_PDict:
  "get_step dflt (PDict kvs) k = (case map_of kvs k of Some v \<Rightarrow> v | None \<Rightarrow> dflt)"
  by (simp add: get_step_def)

lemma get_step_non_dict: "\<not> is_dict d \<Longrightarrow> get_step dflt d k = dflt"
  by (cases d) (simp_all add: get_step_def is_dict_def)

lemma foldl_get_step_default:
  "\<not> is_dict dflt \<Longrightarrow> foldl (get_step dflt) dflt ks = dflt"
  by (induction ks) (simp_all add: get_step_non_dict)

lemma foldl_get_step_walk:
  "\<not> is_dict dflt \<Longrightarrow>
   foldl (get_step dflt) d ks = (case walk d ks of Some v \<Rightarrow> v | None \<Rightarrow> dflt)"
proof (induction d ks rule: walk.induct)
  case (1 v)
  show ?case by simp
next
  case (2 kvs k ks)
  show ?case
  proof (cases "map_of kvs k")
    case None
    with 2 show ?thesis
      by (simp add: get_step_PDict foldl_get_step_default)
  next
    case (Some v)
    with 2 show ?thesis
      by (simp add: get_step_PDict)
  qed
qed (simp_all add: get_step_non_dict is_dict_def foldl_get_step_default)


lemma deep_get_PNone:
  "deep_get d path PNone =
     (case walk d (split_on CHR ''.'' path) of Some v \<Rightarrow> v | None \<Rightarrow> PNone)"
  unfolding deep_get_def
  by (rule foldl_get_step_walk) (simp add: is_dict_def)

lemma split_on_prefix:
  "c \<notin> set s1 \<Longrightarrow> split_on c (s1 @ c # s2) = s1 # split_on c s2"
  by (induction s1) (auto split: list.splits)

lemma get_default_from_config_walk:
  "get_config w = Inr cfg \<Longrightarrow>
   get_default_from_config w v =
     Inr (case walk (PDict (defaults cfg)) (split_on CHR ''.'' v) of
            Some x \<Rightarrow> x | None \<Rightarrow> PNone)"
  using split_on_prefix[of "CHR ''.''" "''defaults''" v]
  by (simp add: get_default_from_config_def bindE_Inr deep_get_PNone Config_dict_def)

lemma sample_config_loads: "get_config sample_world = Inr sample_config"
  by (simp add: get_config_def sample_world_def bindE_Inr sample_toml_def Config_init_def
        validate_creds_def sample_key_def sample_config_def)

text \<open>
  Claim C3. For every dotted path and every nested mapping, the lookup splits the path on
  the dot, walks the mapping one segment at a time and returns the stored value when every
  segment resolves through mappings; it returns the default \<open>None\<close> whenever a node on the
  way is missing or is not a mapping. The lookup is a total function, so no path and no
  mapping makes it raise; on a loaded configuration it walks the \<open>defaults\<close> tree.
\<close>

theorem lookup_walk:
  "deep_get d path PNone =
     (case walk d (split_on CHR ''.'' path) of Some v \<Rightarrow> v | None \<Rightarrow> PNone)
   \<and> (get_config w = Inr cfg \<longrightarrow>
        get_default_from_config w v =
          Inr (case walk (PDict (defaults cfg)) (split_on CHR ''.'' v) of
                 Some x \<Rightarrow> x | None \<Rightarrow> PNone))"
  by (simp add: deep_get_PNone get_default_from_config_walk)

theorem lookup_walk_witness:
  "get_config sample_world = Inr sample_config
   \<and> get_default_from_config sample_world ''invoice.service.name'' = Inr (PStr ''Consulting'')
   \<and> get_default_from_config sample_world ''invoice.service.code'' = Inr PNone
   \<and> get_default_from_config sample_world ''invoice.client_id.name'' = Inr PNone
   \<and> get_default_from_config sample_world ''payment.days'' = Inr PNone"
  using lookup_walk[of PNone "[]" sample_world sample_config "''invoice.service.name''"]
    lookup_walk[of PNone "[]" sample_world sample_config "''invoice.service.code''"]
    lookup_walk[of PNone "[]" sample_world sample_config "''invoice.client_id.name''"]
    lookup_walk[of PNone "[]" sample_world sample_config "''payment.days''"]
  by (simp add: sample_config_loads sample_config_def)
section \<open>Properties of the configuration\<close>

text \<open>
  Claim C4. The configuration loads for every credentials mapping whose \<open>api_key\<close> has
  exactly 40 characters, and the load fails for every credentials mapping whose
  \<open>api_key\<close> is absent or has any other length (the title and the defaults being
  present); the validator itself raises the assertion error in exactly these cases.
\<close>

theorem Config_init_api_key:
  "Config_init \<lparr>raw_title = Some t, raw_credentials = Some c, raw_defaults = Some ds\<rparr> =
     (if (case map_of c ''api_key'' of Some k \<Rightarrow> length k = 40 | None \<Rightarrow> False)
      then Inr \<lparr>title = t, credentials = c, defaults = ds\<rparr>
      else Inl ValidationError)
   \<and> validate_creds c =
     (if (case map_of c ''api_key'' of Some k \<Rightarrow> length k = 40 | None \<Rightarrow> False)
      then Inr c else Inl AssertionError)"
  by (simp add: Config_init_def validate_creds_def split: option.splits)

theorem Config_init_api_key_witness:
  "Config_init sample_toml = Inr sample_config
   \<and> Config_init (sample_toml\<lparr>raw_credentials := Some [(''api_key'', ''too short'')]\<rparr>)
       = Inl ValidationError
   \<and> Config_init (sample_toml\<lparr>raw_credentials := Some []\<rparr>) = Inl ValidationError"
  using Config_init_api_key[of "''inFakt''" "[(''api_key'', sample_key)]" "the (raw_defaults sample_toml)"]
    Config_init_api_key[of "''inFakt''" "[(''api_key'', ''too short'')]" "the (raw_defaults sample_toml)"]
    Config_init_api_key[of "''inFakt''" "[]" "the (raw_defaults sample_toml)"]
  by (simp add: sample_toml_def sample_config_def sample_key_def)

section \<open>Properties of the client operations\<close>

lemma ok_iff: "ok r \<longleftrightarrow> \<not> (400 \<le> status_code r \<and> status_code r < 600)"
  by (simp add: ok_def raise_for_status_def)

lemma raise_for_status_not_ok:
  "\<not> ok r \<Longrightarrow> raise_for_status r = Inl (HTTPError (status_code r))"
  by (simp add: ok_def raise_for_status_def split: if_splits)

lemma create_invoice_cases:
  "create_invoice w g sn cid sd idt pd pdays gtu tr =
     (case create_invoice_payload w g sn cid sd idt pd pdays gtu of
        Inl e \<Rightarrow> (Inl e, tr)
      | Inr p \<Rightarrow>
          (case get_headers w of
             Inl e \<Rightarrow> (Inl e, tr)
           | Inr hs \<Rightarrow>
               if \<not> payload_encodable p then (Inl InvalidJSONError, tr)
               else
                 (case remote w tr (create_request hs p) of
                    Inl e \<Rightarrow> (Inl e, tr @ [create_request hs p])
                  | Inr resp \<Rightarrow>
                      (bindE (raise_for_status resp)
                         (\<lambda>u. bindE (response_json resp) Invoice_init),
                       tr @ [create_request hs p]))))"
  by (simp add: create_invoice_def Let_def split: sum.splits)

lemma create_invoice_sent:
  assumes "snd (create_invoice w g sn cid sd idt pd pdays gtu tr) = tr @ [req]"
  shows "\<exists>hs p. create_invoice_payload w g sn cid sd idt pd pdays gtu = Inr p \<and>
                 get_headers w = Inr hs \<and> payload_encodable p \<and> req = create_request hs p"
  using assms unfolding create_invoice_cases
  by (auto split: sum.splits if_splits)

lemma create_invoice_answered:
  assumes "snd (create_invoice w g sn cid sd idt pd pdays gtu tr) = tr @ [req]"
    and "remote w tr req = Inr resp"
  shows "fst (create_invoice w g sn cid sd idt pd pdays gtu tr) =
           bindE (raise_for_status resp) (\<lambda>u. bindE (response_json resp) Invoice_init)"
proof -
  from create_invoice_sent[OF assms(1)] obtain hs p where
    "create_invoice_payload w g sn cid sd idt pd pdays gtu = Inr p" "get_headers w = Inr hs"
    "payload_encodable p" "req = create_request hs p"
    by blast
  with assms(2) show ?thesis
    by (simp add: create_invoice_cases)
qed

lemma create_invoice_Inr_D:
  assumes "create_invoice w g sn cid sd idt pd pdays gtu tr = (Inr iv, tr')"
  shows "\<exists>hs p resp j.
           create_invoice_payload w g sn cid sd idt pd pdays gtu = Inr p \<and>
           get_headers w = Inr hs \<and> tr' = tr @ [create_request hs p] \<and>
           remote w tr (create_request hs p) = Inr resp \<and> ok resp \<and>
           response_json resp = Inr j \<and> Invoice_init j = Inr iv"
proof -
  from assms obtain p hs resp where
    p: "create_invoice_payload w g sn cid sd idt pd pdays gtu = Inr p" and
    hs: "get_headers w = Inr hs" and
    resp: "remote w tr (create_request hs p) = Inr resp" and
    tr': "tr' = tr @ [create_request hs p]" and
    r: "bindE (raise_for_status resp) (\<lambda>u. bindE (response_json resp) Invoice_init) = Inr iv"
    unfolding create_invoice_cases by (auto split: sum.splits if_splits)
  from r have "ok resp"
    by (auto simp: bindE_Inr_iff ok_def)
  moreover from r obtain j where "response_json resp = Inr j" "Invoice_init j = Inr iv"
    by (auto simp: bindE_Inr_iff)
  ultimately show ?thesis
    using p hs resp tr' by blast
qed

lemma create_invoice_trace:
  "snd (create_invoice w g sn cid sd idt pd pdays gtu tr) = tr \<or>
   (\<exists>hs p. snd (create_invoice w g sn cid sd idt pd pdays gtu tr) = tr @ [create_request hs p])"
  unfolding create_invoice_cases by (auto split: sum.splits)

lemma raise_for_status_cases:
  "raise_for_status r =
     (if 400 \<le> status_code r \<and> status_code r < 600 then Inl (HTTPError (status_code r))
      else Inr ())"
  by (simp add: raise_for_status_def)

lemma create_invoice_payload_dates:
  assumes "create_invoice_payload w g sn cid sd idt pd pdays gtu = Inr p"
  shows "\<exists>did dpd.
           get_default_invoice_date (clock_today w) = Inr did \<and>
           get_payment_date did (case pdays of Some n \<Rightarrow> n | None \<Rightarrow> 14) = Inr dpd \<and>
           p_sale_date p = (case sd of Some s \<Rightarrow> s | None \<Rightarrow> did) \<and>
           p_invoice_date p = (case idt of Some s \<Rightarrow> s | None \<Rightarrow> did) \<and>
           p_payment_date p = (case pd of Some s \<Rightarrow> s | None \<Rightarrow> dpd)"
  using assms unfolding create_invoice_payload_def bindE_Inr_iff
  by auto

lemma create_invoice_payload_gross:
  assumes "create_invoice_payload w g sn cid sd idt pd pdays gtu = Inr p"
  shows "\<exists>s. p_services p = [s] \<and> py_mul_int g 100 = Inr (svc_gross_price s)"
  using assms unfolding create_invoice_payload_def bindE_Inr_iff
  by auto

lemma send_invoice_cases:
  assumes "get_headers w = Inr hs"
  shows "\<exists>rcp. (case email of Some e \<Rightarrow> Inr (PStr e)
                 | None \<Rightarrow> get_default_from_config w ''invoice.client_email'') = Inr rcp \<and>
           send_invoice w n email sc tr =
             (case remote w tr (deliver_request hs n rcp sc) of
                Inl e \<Rightarrow> (Inl e, tr @ [deliver_request hs n rcp sc])
              | Inr resp \<Rightarrow> (Inr (ok resp), tr @ [deliver_request hs n rcp sc]))"
proof -
  from assms obtain cfg where cfg: "get_config w = Inr cfg"
    by (auto simp: get_headers_def bindE_Inr_iff)
  then obtain rcp where
    rcp: "(case email of Some e \<Rightarrow> Inr (PStr e)
           | None \<Rightarrow> get_default_from_config w ''invoice.client_email'') = Inr rcp"
    by (cases email) (simp_all add: get_default_from_config_def bindE_Inr)
  then have "send_invoice w n email sc tr =
             (case remote w tr (deliver_request hs n rcp sc) of
                Inl e \<Rightarrow> (Inl e, tr @ [deliver_request hs n rcp sc])
              | Inr resp \<Rightarrow> (Inr (ok resp), tr @ [deliver_request hs n rcp sc]))"
    using assms by (simp add: send_invoice_def Let_def split: sum.splits)
  with rcp show ?thesis by blast
qed

lemma delete_invoice_cases:
  assumes "get_headers w = Inr hs"
  shows "delete_invoice w n tr =
           (case remote w tr (delete_request hs n) of
              Inl e \<Rightarrow> (Inl e, tr @ [delete_request hs n])
            | Inr resp \<Rightarrow> (Inr (ok resp), tr @ [delete_request hs n]))"
  using assms by (simp add: delete_invoice_def Let_def split: sum.splits)

lemma sample_headers: "get_headers sample_world = Inr [(''X-inFakt-ApiKey'', sample_key)]"
  by (simp add: get_headers_def sample_config_loads bindE_Inr sample_config_def)

text \<open>
  An amount that is an infinity or not a number cannot be encoded: the creation raises
  InvalidJSONError and sends nothing.
\<close>

lemma create_invoice_not_encodable:
  "create_invoice sample_world (PFloat PosInf) None None None None None None None []
     = (Inl InvalidJSONError, [])"
  "create_invoice sample_world (PFloat NaN) None None None None None None None []
     = (Inl InvalidJSONError, [])"
  by code_simp+

lemma sample_recipient:
  "get_default_from_config sample_world ''invoice.client_email'' = Inr (PStr ''client@example.com'')"
  by code_simp

text \<open>
  Claim C8, amended. For every response of the remote service, \<open>delete_invoice\<close> and
  \<open>send_invoice\<close> do not raise: each returns a boolean, which is false exactly when the
  status of the response is a client or server error (400 to 599) and true for every
  other status, inside or outside 200 to 299. The configuration is readable, so that the
  request can be made.
\<close>

theorem soft_failure_boolean:
  assumes "get_headers w = Inr hs"
  shows "(\<forall>resp. remote w tr (delete_request hs n) = Inr resp \<longrightarrow>
            delete_invoice w n tr =
              (Inr (\<not> (400 \<le> status_code resp \<and> status_code resp < 600)),
               tr @ [delete_request hs n]))
       \<and> (\<exists>rcp. (case email of Some e \<Rightarrow> Inr (PStr e)
                   | None \<Rightarrow> get_default_from_config w ''invoice.client_email'') = Inr rcp
            \<and> (\<forall>resp. remote w tr (deliver_request hs n rcp sc) = Inr resp \<longrightarrow>
                  send_invoice w n email sc tr =
                    (Inr (\<not> (400 \<le> status_code resp \<and> status_code resp < 600)),
                     tr @ [deliver_request hs n rcp sc])))"
proof (intro conjI)
  show "\<forall>resp. remote w tr (delete_request hs n) = Inr resp \<longrightarrow>
            delete_invoice w n tr =
              (Inr (\<not> (400 \<le> status_code resp \<and> status_code resp < 600)),
               tr @ [delete_request hs n])"
    by (simp add: delete_invoice_cases[OF assms] ok_iff)
  from send_invoice_cases[OF assms, of email n sc tr] obtain rcp where
    rcp: "(case email of Some e \<Rightarrow> Inr (PStr e)
           | None \<Rightarrow> get_default_from_config w ''invoice.client_email'') = Inr rcp" and
    "send_invoice w n email sc tr =
       (case remote w tr (deliver_request hs n rcp sc) of
          Inl e \<Rightarrow> (Inl e, tr @ [deliver_request hs n rcp sc])
        | Inr resp \<Rightarrow> (Inr (ok resp), tr @ [deliver_request hs n rcp sc]))"
    by blast
  then have "\<forall>resp. remote w tr (deliver_request hs n rcp sc) = Inr resp \<longrightarrow>
            send_invoice w n email sc tr =
              (Inr (\<not> (400 \<le> status_code resp \<and> status_code resp < 600)),
               tr @ [deliver_request hs n rcp sc])"
    by (simp add: ok_iff)
  with rcp
  show "\<exists>rcp. (case email of Some e \<Rightarrow> Inr (PStr e)
                   | None \<Rightarrow> get_default_from_config w ''invoice.client_email'') = Inr rcp
            \<and> (\<forall>resp. remote w tr (deliver_request hs n rcp sc) = Inr resp \<longrightarrow>
                  send_invoice w n email sc tr =
                    (Inr (\<not> (400 \<le> status_code resp \<and> status_code resp < 600)),
                     tr @ [deliver_request hs n rcp sc]))"
    by blast
qed

theorem soft_failure_boolean_witness:
  "get_headers sample_world = Inr [(''X-inFakt-ApiKey'', sample_key)]
   \<and> delete_invoice sample_world (PInt 4711) []
       = (Inr False,
          [\<lparr>req_method = DELETE,
            req_url = [Lit ''https://api.infakt.pl:443/api/v3/invoices/'', StrOf (PInt 4711),
                       Lit ''.json''],
            req_headers = [(''X-inFakt-ApiKey'', sample_key)], req_json = None,
            req_data = None\<rparr>])
   \<and> send_invoice sample_world (PInt 4711) None True []
       = (Inr True,
          [\<lparr>req_method = POST,
            req_url = [Lit ''https://api.infakt.pl:443/api/v3/invoices/'', StrOf (PInt 4711),
                       Lit ''/deliver_via_email.json''],
            req_headers = [(''X-inFakt-ApiKey'', sample_key)], req_json = None,
            req_data = Some \<lparr>d_print_type = ''original'', d_locale = ''pe'',
                             d_recipient = PStr ''client@example.com'',
                             d_send_copy = True\<rparr>\<rparr>])"
proof -
  have h: "get_headers sample_world = Inr [(''X-inFakt-ApiKey'', sample_key)]"
    by (rule sample_headers)
  have r: "remote sample_world = sample_remote"
    by (simp add: sample_world_def)
  from soft_failure_boolean[OF h, where tr = "[]" and n = "PInt 4711" and sc = True
      and email = None]
  show ?thesis
    using h
    by (auto simp: r sample_remote_def delete_request_def deliver_request_def API_URL_def
          sample_recipient)
qed

text \<open>
  The claim as it was stated fails at a status that is neither a success nor an error
  for \<open>requests\<close>: on 304 both operations return true.
\<close>

theorem soft_failure_boolean_counterexample:
  "remote not_modified_world []
       (delete_request [(''X-inFakt-ApiKey'', sample_key)] (PInt 4711))
     = Inr \<lparr>status_code = 304, json_body = Some sample_body\<rparr>
   \<and> fst (delete_invoice not_modified_world (PInt 4711) []) = Inr True
   \<and> remote not_modified_world []
        (deliver_request [(''X-inFakt-ApiKey'', sample_key)] (PInt 4711)
           (PStr ''client@example.com'') True)
     = Inr \<lparr>status_code = 304, json_body = Some sample_body\<rparr>
   \<and> fst (send_invoice not_modified_world (PInt 4711) None True []) = Inr True"
  by code_simp

text \<open>
  Claim C7, amended. \<open>create_invoice\<close> raises the HTTP error of \<open>raise_for_status\<close> on
  every response of the creation call whose status is a client or server error (400 to
  599): the error is the result of the operation, not a boolean. On every other status,
  also outside 200 to 299, it goes on to construct the invoice from the body. It returns
  an invoice only when the creation call was made, the status of the response is not
  such an error, and the invoice is the one constructed from the body of that response.
\<close>

theorem create_invoice_raises:
  "(\<forall>req resp. snd (create_invoice w g sn cid sd idt pd pdays gtu tr) = tr @ [req] \<and>
        remote w tr req = Inr resp \<longrightarrow>
        (400 \<le> status_code resp \<and> status_code resp < 600 \<longrightarrow>
           fst (create_invoice w g sn cid sd idt pd pdays gtu tr)
             = Inl (HTTPError (status_code resp))) \<and>
        (\<not> (400 \<le> status_code resp \<and> status_code resp < 600) \<longrightarrow>
           fst (create_invoice w g sn cid sd idt pd pdays gtu tr)
             = bindE (response_json resp) Invoice_init))
   \<and> (\<forall>iv. fst (create_invoice w g sn cid sd idt pd pdays gtu tr) = Inr iv \<longrightarrow>
        (\<exists>req resp j. snd (create_invoice w g sn cid sd idt pd pdays gtu tr) = tr @ [req] \<and>
           remote w tr req = Inr resp \<and>
           \<not> (400 \<le> status_code resp \<and> status_code resp < 600) \<and>
           response_json resp = Inr j \<and> Invoice_init j = Inr iv))"
proof (intro conjI allI impI)
  fix req resp
  assume a: "snd (create_invoice w g sn cid sd idt pd pdays gtu tr) = tr @ [req] \<and>
        remote w tr req = Inr resp"
  assume "400 \<le> status_code resp \<and> status_code resp < 600"
  then have "raise_for_status resp = Inl (HTTPError (status_code resp))"
    unfolding raise_for_status_cases by (rule if_P)
  with a show "fst (create_invoice w g sn cid sd idt pd pdays gtu tr)
                 = Inl (HTTPError (status_code resp))"
    by (simp add: create_invoice_answered bindE_Inl)
next
  fix req resp
  assume a: "snd (create_invoice w g sn cid sd idt pd pdays gtu tr) = tr @ [req] \<and>
        remote w tr req = Inr resp"
  assume "\<not> (400 \<le> status_code resp \<and> status_code resp < 600)"
  then have "raise_for_status resp = Inr ()"
    unfolding raise_for_status_cases by (rule if_not_P)
  with a show "fst (create_invoice w g sn cid sd idt pd pdays gtu tr)
                 = bindE (response_json resp) Invoice_init"
    by (simp add: create_invoice_answered bindE_Inr)
next
  fix iv
  assume "fst (create_invoice w g sn cid sd idt pd pdays gtu tr) = Inr iv"
  then have "create_invoice w g sn cid sd idt pd pdays gtu tr
               = (Inr iv, snd (create_invoice w g sn cid sd idt pd pdays gtu tr))"
    by (metis prod.collapse)
  from create_invoice_Inr_D[OF this]
  show "\<exists>req resp j. snd (create_invoice w g sn cid sd idt pd pdays gtu tr) = tr @ [req] \<and>
           remote w tr req = Inr resp \<and>
           \<not> (400 \<le> status_code resp \<and> status_code resp < 600) \<and>
           response_json resp = Inr j \<and> Invoice_init j = Inr iv"
    unfolding ok_iff by blast
qed

lemma refusing_create:
  "create_invoice refusing_world (PInt 286) None None None None None None None [] =
     (Inl (HTTPError 422),
      [create_request [(''X-inFakt-ApiKey'', sample_key)]
         \<lparr>p_client_id = StrOf (PInt 7), p_payment_method = ''transfer'',
          p_sale_date = ''2024-03-31'', p_invoice_date = ''2024-03-31'',
          p_payment_date = ''2024-04-14'',
          p_services = [\<lparr>svc_name = PStr ''Consulting'', svc_gross_price = PInt 28600,
                          svc_tax_symbol = 23, svc_gtu_id = PInt 12\<rparr>]\<rparr>])"
  by code_simp

lemma sample_create:
  "create_invoice sample_world (PInt 286) None None None (Some ''2024-02-10'') None None None [] =
     (Inr \<lparr>inv_id = PInt 4711, inv_number = PStr ''12/03/2024'',
           inv_invoice_date = PStr ''2024-03-31'', inv_sale_date = PStr ''2024-03-31'',
           inv_net_price = PFloat (Finite (2046323080686469 / 8796093022208)),
           inv_tax_price = PFloat (Finite (7530863001893601 / 140737488355328)),
           inv_gross_price = PFloat (Finite (2517002018304819 / 8796093022208)),
           inv_client_id = PInt 7\<rparr>,
      [create_request [(''X-inFakt-ApiKey'', sample_key)]
         \<lparr>p_client_id = StrOf (PInt 7), p_payment_method = ''transfer'',
          p_sale_date = ''2024-03-31'', p_invoice_date = ''2024-02-10'',
          p_payment_date = ''2024-04-14'',
          p_services = [\<lparr>svc_name = PStr ''Consulting'', svc_gross_price = PInt 28600,
                          svc_tax_symbol = 23, svc_gtu_id = PInt 12\<rparr>]\<rparr>])"
  by code_simp

lemma not_modified_create:
  "create_invoice not_modified_world (PInt 286) None None None None None None None [] =
     (Inr \<lparr>inv_id = PInt 4711, inv_number = PStr ''12/03/2024'',
           inv_invoice_date = PStr ''2024-03-31'', inv_sale_date = PStr ''2024-03-31'',
           inv_net_price = PFloat (Finite (2046323080686469 / 8796093022208)),
           inv_tax_price = PFloat (Finite (7530863001893601 / 140737488355328)),
           inv_gross_price = PFloat (Finite (2517002018304819 / 8796093022208)),
           inv_client_id = PInt 7\<rparr>,
      [create_request [(''X-inFakt-ApiKey'', sample_key)]
         \<lparr>p_client_id = StrOf (PInt 7), p_payment_method = ''transfer'',
          p_sale_date = ''2024-03-31'', p_invoice_date = ''2024-03-31'',
          p_payment_date = ''2024-04-14'',
          p_services = [\<lparr>svc_name = PStr ''Consulting'', svc_gross_price = PInt 28600,
                          svc_tax_symbol = 23, svc_gtu_id = PInt 12\<rparr>]\<rparr>])"
  by code_simp

theorem create_invoice_raises_witness:
  "fst (create_invoice refusing_world (PInt 286) None None None None None None None [])
     = Inl (HTTPError 422)
   \<and> (\<exists>req resp j.
         snd (create_invoice sample_world (PInt 286) None None None (Some ''2024-02-10'')
                None None None []) = [] @ [req] \<and>
         remote sample_world [] req = Inr resp \<and> status_code resp = 201 \<and>
         response_json resp = Inr j \<and>
         inv_id (projr (fst (create_invoice sample_world (PInt 286) None None None
                   (Some ''2024-02-10'') None None None []))) = PInt 4711)"
proof -
  let ?req = "create_request [(''X-inFakt-ApiKey'', sample_key)]
         \<lparr>p_client_id = StrOf (PInt 7), p_payment_method = ''transfer'',
          p_sale_date = ''2024-03-31'', p_invoice_date = ''2024-03-31'',
          p_payment_date = ''2024-04-14'',
          p_services = [\<lparr>svc_name = PStr ''Consulting'', svc_gross_price = PInt 28600,
                          svc_tax_symbol = 23, svc_gtu_id = PInt 12\<rparr>]\<rparr>"
  let ?resp = "\<lparr>status_code = 422, json_body = Some (PDict [])\<rparr>"
  have h: "snd (create_invoice refusing_world (PInt 286) None None None None None None None [])
             = [] @ [?req] \<and> remote refusing_world [] ?req = Inr ?resp"
  proof (intro conjI)
    show "snd (create_invoice refusing_world (PInt 286) None None None None None None None [])
             = [] @ [?req]"
      by (simp add: refusing_create)
    show "remote refusing_world [] ?req = Inr ?resp"
      by (simp add: refusing_world_def refusing_remote_def)
  qed
  have e: "400 \<le> status_code ?resp \<and> status_code ?resp < 600"
    by simp
  have "\<forall>req resp.
          snd (create_invoice refusing_world (PInt 286) None None None None None None None [])
            = [] @ [req] \<and> remote refusing_world [] req = Inr resp \<longrightarrow>
          (400 \<le> status_code resp \<and> status_code resp < 600 \<longrightarrow>
          fst (create_invoice refusing_world (PInt 286) None None None None None None None [])
            = Inl (HTTPError (status_code resp)))"
    using create_invoice_raises[of refusing_world "PInt 286" None None None None None None None "[]"]
    by blast
  with h e have a: "fst (create_invoice refusing_world (PInt 286) None None None None None None
                      None [])
             = Inl (HTTPError (status_code ?resp))"
    by blast
  have "\<forall>iv. fst (create_invoice sample_world (PInt 286) None None None (Some ''2024-02-10'')
                None None None []) = Inr iv \<longrightarrow>
        (\<exists>req resp j. snd (create_invoice sample_world (PInt 286) None None None
                (Some ''2024-02-10'') None None None []) = [] @ [req] \<and>
           remote sample_world [] req = Inr resp \<and>
           \<not> (400 \<le> status_code resp \<and> status_code resp < 600) \<and>
           response_json resp = Inr j \<and> Invoice_init j = Inr iv)"
    using create_invoice_raises[of sample_world "PInt 286" None None None "Some ''2024-02-10''"
        None None None "[]"]
    by blast
  moreover have "fst (create_invoice sample_world (PInt 286) None None None (Some ''2024-02-10'')
                None None None []) =
           Inr \<lparr>inv_id = PInt 4711, inv_number = PStr ''12/03/2024'',
           inv_invoice_date = PStr ''2024-03-31'', inv_sale_date = PStr ''2024-03-31'',
           inv_net_price = PFloat (Finite (2046323080686469 / 8796093022208)),
           inv_tax_price = PFloat (Finite (7530863001893601 / 140737488355328)),
           inv_gross_price = PFloat (Finite (2517002018304819 / 8796093022208)),
           inv_client_id = PInt 7\<rparr>"
    by (simp add: sample_create)
  ultimately obtain req resp j where
    f: "snd (create_invoice sample_world (PInt 286) None None None (Some ''2024-02-10'')
                None None None []) = [] @ [req]"
    "remote sample_world [] req = Inr resp" "response_json resp = Inr j"
    by blast
  from f(1) have "req_json req \<noteq> None \<and> req_method req = POST"
    by (auto simp: sample_create create_request_def)
  with f(2) have "status_code resp = 201"
    by (auto simp: sample_world_def sample_remote_def)
  moreover have "inv_id (projr (fst (create_invoice sample_world (PInt 286) None None None
                   (Some ''2024-02-10'') None None None []))) = PInt 4711"
    by (simp add: sample_create)
  ultimately have b: "\<exists>req resp j.
         snd (create_invoice sample_world (PInt 286) None None None (Some ''2024-02-10'')
                None None None []) = [] @ [req] \<and>
         remote sample_world [] req = Inr resp \<and> status_code resp = 201 \<and>
         response_json resp = Inr j \<and>
         inv_id (projr (fst (create_invoice sample_world (PInt 286) None None None
                   (Some ''2024-02-10'') None None None []))) = PInt 4711"
    using f by blast
  from a b show ?thesis by simp
qed

text \<open>
  The claim as it was stated fails at a status that is not a success and not an error
  for \<open>requests\<close>: on 304 with an invoice in the body, \<open>create_invoice\<close> does not raise
  and returns the invoice.
\<close>

theorem create_invoice_raises_counterexample:
  "remote not_modified_world []
       (create_request [(''X-inFakt-ApiKey'', sample_key)]
          \<lparr>p_client_id = StrOf (PInt 7), p_payment_method = ''transfer'',
           p_sale_date = ''2024-03-31'', p_invoice_date = ''2024-03-31'',
           p_payment_date = ''2024-04-14'',
           p_services = [\<lparr>svc_name = PStr ''Consulting'', svc_gross_price = PInt 28600,
                           svc_tax_symbol = 23, svc_gtu_id = PInt 12\<rparr>]\<rparr>)
     = Inr \<lparr>status_code = 304, json_body = Some sample_body\<rparr>
   \<and> create_invoice not_modified_world (PInt 286) None None None None None None None [] =
     (Inr \<lparr>inv_id = PInt 4711, inv_number = PStr ''12/03/2024'',
           inv_invoice_date = PStr ''2024-03-31'', inv_sale_date = PStr ''2024-03-31'',
           inv_net_price = PFloat (Finite (2046323080686469 / 8796093022208)),
           inv_tax_price = PFloat (Finite (7530863001893601 / 140737488355328)),
           inv_gross_price = PFloat (Finite (2517002018304819 / 8796093022208)),
           inv_client_id = PInt 7\<rparr>,
      [create_request [(''X-inFakt-ApiKey'', sample_key)]
         \<lparr>p_client_id = StrOf (PInt 7), p_payment_method = ''transfer'',
          p_sale_date = ''2024-03-31'', p_invoice_date = ''2024-03-31'',
          p_payment_date = ''2024-04-14'',
          p_services = [\<lparr>svc_name = PStr ''Consulting'', svc_gross_price = PInt 28600,
                          svc_tax_symbol = 23, svc_gtu_id = PInt 12\<rparr>]\<rparr>])"
proof (intro conjI)
  show "remote not_modified_world []
       (create_request [(''X-inFakt-ApiKey'', sample_key)]
          \<lparr>p_client_id = StrOf (PInt 7), p_payment_method = ''transfer'',
           p_sale_date = ''2024-03-31'', p_invoice_date = ''2024-03-31'',
           p_payment_date = ''2024-04-14'',
           p_services = [\<lparr>svc_name = PStr ''Consulting'', svc_gross_price = PInt 28600,
                           svc_tax_symbol = 23, svc_gtu_id = PInt 12\<rparr>]\<rparr>)
     = Inr \<lparr>status_code = 304, json_body = Some sample_body\<rparr>"
    by (simp add: not_modified_world_def not_modified_remote_def)
qed (rule not_modified_create)

text \<open>
  Claim C6. In \<open>create_invoice\<close> the sale date, the invoice date and the payment date of
  the transmitted payload each fall back on their own, exactly when the caller leaves
  them out: sale date and invoice date to the computed default invoice date, the payment
  date to the payment date computed from that default invoice date and the payment days
  (14 when left out), also when the caller gives an invoice date of their own. A date the
  caller gives is transmitted unchanged.
\<close>

theorem create_invoice_date_defaults:
  assumes "snd (create_invoice w g sn cid sd idt pd pdays gtu tr) = tr @ [req]"
  shows "\<exists>p did dpd.
           req_json req = Some p \<and>
           get_default_invoice_date (clock_today w) = Inr did \<and>
           get_payment_date did (case pdays of Some n \<Rightarrow> n | None \<Rightarrow> 14) = Inr dpd \<and>
           p_sale_date p = (case sd of Some s \<Rightarrow> s | None \<Rightarrow> did) \<and>
           p_invoice_date p = (case idt of Some s \<Rightarrow> s | None \<Rightarrow> did) \<and>
           p_payment_date p = (case pd of Some s \<Rightarrow> s | None \<Rightarrow> dpd)"
proof -
  from create_invoice_sent[OF assms] obtain hs p where
    p: "create_invoice_payload w g sn cid sd idt pd pdays gtu = Inr p" and
    req: "req = create_request hs p"
    by blast
  from create_invoice_payload_dates[OF p] req show ?thesis
    by (auto simp: create_request_def)
qed

theorem create_invoice_date_defaults_witness:
  "\<exists>req p. snd (create_invoice sample_world (PInt 286) None None None (Some ''2024-02-10'')
                   None None None []) = [] @ [req] \<and>
      req_json req = Some p \<and>
      get_default_invoice_date (clock_today sample_world) = Inr ''2024-03-31'' \<and>
      get_payment_date ''2024-03-31'' 14 = Inr ''2024-04-14'' \<and>
      p_sale_date p = ''2024-03-31'' \<and> p_invoice_date p = ''2024-02-10'' \<and>
      p_payment_date p = ''2024-04-14''"
proof -
  let ?req = "create_request [(''X-inFakt-ApiKey'', sample_key)]
         \<lparr>p_client_id = StrOf (PInt 7), p_payment_method = ''transfer'',
          p_sale_date = ''2024-03-31'', p_invoice_date = ''2024-02-10'',
          p_payment_date = ''2024-04-14'',
          p_services = [\<lparr>svc_name = PStr ''Consulting'', svc_gross_price = PInt 28600,
                          svc_tax_symbol = 23, svc_gtu_id = PInt 12\<rparr>]\<rparr>"
  have h: "snd (create_invoice sample_world (PInt 286) None None None (Some ''2024-02-10'')
                   None None None []) = [] @ [?req]"
    by (simp add: sample_create)
  from create_invoice_date_defaults[OF h] obtain p did dpd where
    f: "req_json ?req = Some p" "get_default_invoice_date (clock_today sample_world) = Inr did"
       "get_payment_date did 14 = Inr dpd"
       "p_sale_date p = did" "p_invoice_date p = ''2024-02-10''" "p_payment_date p = dpd"
    by auto
  from f(1) have "p_sale_date p = ''2024-03-31''" "p_payment_date p = ''2024-04-14''"
    by (auto simp: create_request_def)
  with f h show ?thesis
    by (intro exI[of _ ?req] exI[of _ p]) simp
qed

lemma Invoice_init_id:
  assumes "Invoice_init j = Inr iv"
  shows "getitem j ''id'' = Inr (inv_id iv)"
  using assms unfolding Invoice_init_def bindE_Inr_iff
  by auto

text \<open>
  Claim C9. \<open>create_and_send_invoice\<close> makes the creation call first; when creation
  raises, the failure is the result and nothing is sent after the requests of the
  creation; when creation returns an invoice, the delivery request follows the creation
  request: it is a POST to the address \<open>invoices/<id>/deliver_via_email.json\<close> under the
  address of the service, where \<open><id>\<close> is the identifier of that invoice, the value
  under the key \<open>id\<close> of the body of the response to the creation request; and the
  result is the boolean of the send operation.
\<close>

theorem create_then_send:
  "(\<forall>e. fst (create_invoice w g sn cid sd idt pd pdays gtu tr) = Inl e \<longrightarrow>
      create_and_send_invoice w g email sc sn cid sd idt pd pdays gtu tr
        = (Inl e, snd (create_invoice w g sn cid sd idt pd pdays gtu tr)) \<and>
      (snd (create_invoice w g sn cid sd idt pd pdays gtu tr) = tr \<or>
       (\<exists>hs p. snd (create_invoice w g sn cid sd idt pd pdays gtu tr)
                  = tr @ [\<lparr>req_method = POST, req_url = [Lit (API_URL @ ''invoices.json'')],
                      req_headers = hs, req_json = Some p, req_data = None\<rparr>])))
   \<and> (\<forall>iv. fst (create_invoice w g sn cid sd idt pd pdays gtu tr) = Inr iv \<longrightarrow>
        (\<exists>hs p resp j rcp creq sreq.
           creq = \<lparr>req_method = POST, req_url = [Lit (API_URL @ ''invoices.json'')],
                      req_headers = hs, req_json = Some p, req_data = None\<rparr> \<and>
           sreq = \<lparr>req_method = POST,
                      req_url = [Lit (API_URL @ ''invoices/''), StrOf (inv_id iv),
                                 Lit ''/deliver_via_email.json''],
                      req_headers = hs, req_json = None,
                      req_data = Some \<lparr>d_print_type = ''original'', d_locale = ''pe'',
                                       d_recipient = rcp, d_send_copy = sc\<rparr>\<rparr> \<and>
           snd (create_invoice w g sn cid sd idt pd pdays gtu tr) = tr @ [creq] \<and>
           remote w tr creq = Inr resp \<and> response_json resp = Inr j \<and>
           getitem j ''id'' = Inr (inv_id iv) \<and>
           (case email of Some e \<Rightarrow> Inr (PStr e)
            | None \<Rightarrow> get_default_from_config w ''invoice.client_email'') = Inr rcp \<and>
           create_and_send_invoice w g email sc sn cid sd idt pd pdays gtu tr
             = send_invoice w (inv_id iv) email sc (tr @ [creq]) \<and>
           snd (create_and_send_invoice w g email sc sn cid sd idt pd pdays gtu tr) = tr @ [creq, sreq] \<and>
           fst (create_and_send_invoice w g email sc sn cid sd idt pd pdays gtu tr)
             = (case remote w (tr @ [creq]) sreq of
                  Inl e \<Rightarrow> Inl e
                | Inr resp' \<Rightarrow> Inr (ok resp'))))"
proof (intro conjI allI impI)
  fix e
  assume "fst (create_invoice w g sn cid sd idt pd pdays gtu tr) = Inl e"
  then have c: "create_invoice w g sn cid sd idt pd pdays gtu tr
               = (Inl e, snd (create_invoice w g sn cid sd idt pd pdays gtu tr))"
    by (metis prod.collapse)
  show "create_and_send_invoice w g email sc sn cid sd idt pd pdays gtu tr
        = (Inl e, snd (create_invoice w g sn cid sd idt pd pdays gtu tr))"
    unfolding create_and_send_invoice_def by (subst c) simp
  show "snd (create_invoice w g sn cid sd idt pd pdays gtu tr) = tr \<or>
       (\<exists>hs p. snd (create_invoice w g sn cid sd idt pd pdays gtu tr)
                  = tr @ [\<lparr>req_method = POST, req_url = [Lit (API_URL @ ''invoices.json'')],
                      req_headers = hs, req_json = Some p, req_data = None\<rparr>])"
    using create_invoice_trace[of w g sn cid sd idt pd pdays gtu tr]
    by (simp add: create_request_def)
next
  fix iv
  assume "fst (create_invoice w g sn cid sd idt pd pdays gtu tr) = Inr iv"
  then have c: "create_invoice w g sn cid sd idt pd pdays gtu tr
               = (Inr iv, snd (create_invoice w g sn cid sd idt pd pdays gtu tr))"
    by (metis prod.collapse)
  from create_invoice_Inr_D[OF c] obtain hs p resp j where
    hs: "get_headers w = Inr hs" and
    tr': "snd (create_invoice w g sn cid sd idt pd pdays gtu tr) = tr @ [create_request hs p]" and
    resp: "remote w tr (create_request hs p) = Inr resp" and
    j: "response_json resp = Inr j" and
    iv: "Invoice_init j = Inr iv"
    by blast
  have cs: "create_and_send_invoice w g email sc sn cid sd idt pd pdays gtu tr
             = send_invoice w (inv_id iv) email sc (tr @ [create_request hs p])"
    unfolding create_and_send_invoice_def by (subst c) (simp add: tr')
  from send_invoice_cases[OF hs, of email "inv_id iv" sc "tr @ [create_request hs p]"]
  obtain rcp where
    rcp: "(case email of Some e \<Rightarrow> Inr (PStr e)
            | None \<Rightarrow> get_default_from_config w ''invoice.client_email'') = Inr rcp" and
    s: "send_invoice w (inv_id iv) email sc (tr @ [create_request hs p]) =
         (case remote w (tr @ [create_request hs p]) (deliver_request hs (inv_id iv) rcp sc) of
            Inl e \<Rightarrow> (Inl e, (tr @ [create_request hs p]) @ [deliver_request hs (inv_id iv) rcp sc])
          | Inr resp \<Rightarrow> (Inr (ok resp),
              (tr @ [create_request hs p]) @ [deliver_request hs (inv_id iv) rcp sc]))"
    by blast
  have t: "snd (create_and_send_invoice w g email sc sn cid sd idt pd pdays gtu tr)
             = tr @ [create_request hs p, deliver_request hs (inv_id iv) rcp sc]"
    unfolding cs s by (simp split: sum.splits)
  have r: "fst (create_and_send_invoice w g email sc sn cid sd idt pd pdays gtu tr)
             = (case remote w (tr @ [create_request hs p])
                       (deliver_request hs (inv_id iv) rcp sc) of
                  Inl e \<Rightarrow> Inl e
                | Inr resp' \<Rightarrow> Inr (ok resp'))"
    unfolding cs s by (simp split: sum.splits)
  define creq where "creq = \<lparr>req_method = POST, req_url = [Lit (API_URL @ ''invoices.json'')],
                      req_headers = hs, req_json = Some p, req_data = None\<rparr>"
  define sreq where "sreq = \<lparr>req_method = POST,
                      req_url = [Lit (API_URL @ ''invoices/''), StrOf (inv_id iv),
                                 Lit ''/deliver_via_email.json''],
                      req_headers = hs, req_json = None,
                      req_data = Some \<lparr>d_print_type = ''original'', d_locale = ''pe'',
                                       d_recipient = rcp, d_send_copy = sc\<rparr>\<rparr>"
  have creq: "create_request hs p = creq"
    by (simp add: creq_def create_request_def)
  have sreq: "deliver_request hs (inv_id iv) rcp sc = sreq"
    by (simp add: sreq_def deliver_request_def)
  have "snd (create_invoice w g sn cid sd idt pd pdays gtu tr) = tr @ [creq]"
    using tr' by (simp add: creq)
  moreover have "remote w tr creq = Inr resp"
    using resp by (simp add: creq)
  moreover have "getitem j ''id'' = Inr (inv_id iv)"
    using iv by (rule Invoice_init_id)
  moreover have "create_and_send_invoice w g email sc sn cid sd idt pd pdays gtu tr
             = send_invoice w (inv_id iv) email sc (tr @ [creq])"
    using cs by (simp add: creq)
  moreover have "snd (create_and_send_invoice w g email sc sn cid sd idt pd pdays gtu tr) = tr @ [creq, sreq]"
    using t by (simp add: creq sreq)
  moreover have "fst (create_and_send_invoice w g email sc sn cid sd idt pd pdays gtu tr)
             = (case remote w (tr @ [creq]) sreq of
                  Inl e \<Rightarrow> Inl e
                | Inr resp' \<Rightarrow> Inr (ok resp'))"
    using r by (simp add: creq sreq)
  ultimately
  show "\<exists>hs p resp j rcp creq sreq.
           creq = \<lparr>req_method = POST, req_url = [Lit (API_URL @ ''invoices.json'')],
                      req_headers = hs, req_json = Some p, req_data = None\<rparr> \<and>
           sreq = \<lparr>req_method = POST,
                      req_url = [Lit (API_URL @ ''invoices/''), StrOf (inv_id iv),
                                 Lit ''/deliver_via_email.json''],
                      req_headers = hs, req_json = None,
                      req_data = Some \<lparr>d_print_type = ''original'', d_locale = ''pe'',
                                       d_recipient = rcp, d_send_copy = sc\<rparr>\<rparr> \<and>
           snd (create_invoice w g sn cid sd idt pd pdays gtu tr) = tr @ [creq] \<and>
           remote w tr creq = Inr resp \<and> response_json resp = Inr j \<and>
           getitem j ''id'' = Inr (inv_id iv) \<and>
           (case email of Some e \<Rightarrow> Inr (PStr e)
            | None \<Rightarrow> get_default_from_config w ''invoice.client_email'') = Inr rcp \<and>
           create_and_send_invoice w g email sc sn cid sd idt pd pdays gtu tr
             = send_invoice w (inv_id iv) email sc (tr @ [creq]) \<and>
           snd (create_and_send_invoice w g email sc sn cid sd idt pd pdays gtu tr) = tr @ [creq, sreq] \<and>
           fst (create_and_send_invoice w g email sc sn cid sd idt pd pdays gtu tr)
             = (case remote w (tr @ [creq]) sreq of
                  Inl e \<Rightarrow> Inl e
                | Inr resp' \<Rightarrow> Inr (ok resp'))"
    using creq_def sreq_def j rcp by blast
qed

theorem create_then_send_witness:
  "create_and_send_invoice refusing_world (PInt 286) None True None None None None None None None []
     = (Inl (HTTPError 422),
        snd (create_invoice refusing_world (PInt 286) None None None None None None None []))
   \<and> create_and_send_invoice sample_world (PInt 286) None True None None None
            (Some ''2024-02-10'') None None None []
       = (Inr True,
          [\<lparr>req_method = POST,
            req_url = [Lit ''https://api.infakt.pl:443/api/v3/invoices.json''],
            req_headers = [(''X-inFakt-ApiKey'', sample_key)],
            req_json = Some
              \<lparr>p_client_id = StrOf (PInt 7), p_payment_method = ''transfer'',
               p_sale_date = ''2024-03-31'', p_invoice_date = ''2024-02-10'',
               p_payment_date = ''2024-04-14'',
               p_services = [\<lparr>svc_name = PStr ''Consulting'', svc_gross_price = PInt 28600,
                               svc_tax_symbol = 23, svc_gtu_id = PInt 12\<rparr>]\<rparr>,
            req_data = None\<rparr>,
           \<lparr>req_method = POST,
            req_url = [Lit ''https://api.infakt.pl:443/api/v3/invoices/'', StrOf (PInt 4711),
                       Lit ''/deliver_via_email.json''],
            req_headers = [(''X-inFakt-ApiKey'', sample_key)], req_json = None,
            req_data = Some \<lparr>d_print_type = ''original'', d_locale = ''pe'',
                             d_recipient = PStr ''client@example.com'',
                             d_send_copy = True\<rparr>\<rparr>])"
proof -
  have a: "fst (create_invoice refusing_world (PInt 286) None None None None None None None [])
             = Inl (HTTPError 422)"
    by (simp add: refusing_create)
  have "\<forall>e. fst (create_invoice refusing_world (PInt 286) None None None None None None None [])
               = Inl e \<longrightarrow>
      create_and_send_invoice refusing_world (PInt 286) None True None None None None None None
          None []
        = (Inl e, snd (create_invoice refusing_world (PInt 286) None None None None None None
                         None []))"
    using create_then_send[of refusing_world "PInt 286" None None None None None None None "[]"
        None True]
    by blast
  with a have A: "create_and_send_invoice refusing_world (PInt 286) None True None None None None
        None None None []
     = (Inl (HTTPError 422),
        snd (create_invoice refusing_world (PInt 286) None None None None None None None []))"
    by blast
  let ?iv = "\<lparr>inv_id = PInt 4711, inv_number = PStr ''12/03/2024'',
           inv_invoice_date = PStr ''2024-03-31'', inv_sale_date = PStr ''2024-03-31'',
           inv_net_price = PFloat (Finite (2046323080686469 / 8796093022208)),
           inv_tax_price = PFloat (Finite (7530863001893601 / 140737488355328)),
           inv_gross_price = PFloat (Finite (2517002018304819 / 8796093022208)),
           inv_client_id = PInt 7\<rparr>"
  let ?cs = "create_and_send_invoice sample_world (PInt 286) None True None None None
                  (Some ''2024-02-10'') None None None []"
  let ?ci = "create_invoice sample_world (PInt 286) None None None (Some ''2024-02-10'')
                  None None None []"
  have b: "fst ?ci = Inr ?iv"
    by (simp add: sample_create)
  have "\<forall>iv. fst ?ci = Inr iv \<longrightarrow>
        (\<exists>hs p rcp creq sreq.
           creq = \<lparr>req_method = POST, req_url = [Lit (API_URL @ ''invoices.json'')],
                      req_headers = hs, req_json = Some p, req_data = None\<rparr> \<and>
           sreq = \<lparr>req_method = POST,
                      req_url = [Lit (API_URL @ ''invoices/''), StrOf (inv_id iv),
                                 Lit ''/deliver_via_email.json''],
                      req_headers = hs, req_json = None,
                      req_data = Some \<lparr>d_print_type = ''original'', d_locale = ''pe'',
                                       d_recipient = rcp, d_send_copy = True\<rparr>\<rparr> \<and>
           snd ?ci = [] @ [creq] \<and>
           (case None of Some e \<Rightarrow> Inr (PStr e)
            | None \<Rightarrow> get_default_from_config sample_world ''invoice.client_email'') = Inr rcp \<and>
           snd ?cs = [] @ [creq, sreq] \<and>
           fst ?cs = (case remote sample_world ([] @ [creq]) sreq of
                        Inl e \<Rightarrow> Inl e
                      | Inr resp' \<Rightarrow> Inr (ok resp')))"
    using create_then_send[of sample_world "PInt 286" None None None "Some ''2024-02-10''"
        None None None "[]" None True]
    by blast
  with b obtain hs p rcp where
    c: "snd ?ci = [] @ [\<lparr>req_method = POST, req_url = [Lit (API_URL @ ''invoices.json'')],
                      req_headers = hs, req_json = Some p, req_data = None\<rparr>]"
       "(case None of Some e \<Rightarrow> Inr (PStr e)
            | None \<Rightarrow> get_default_from_config sample_world ''invoice.client_email'') = Inr rcp"
       "snd ?cs = [] @ [\<lparr>req_method = POST, req_url = [Lit (API_URL @ ''invoices.json'')],
                      req_headers = hs, req_json = Some p, req_data = None\<rparr>,
                    \<lparr>req_method = POST,
                      req_url = [Lit (API_URL @ ''invoices/''), StrOf (inv_id ?iv),
                                 Lit ''/deliver_via_email.json''],
                      req_headers = hs, req_json = None,
                      req_data = Some \<lparr>d_print_type = ''original'', d_locale = ''pe'',
                                       d_recipient = rcp, d_send_copy = True\<rparr>\<rparr>]"
       "fst ?cs = (case remote sample_world
                         ([] @ [\<lparr>req_method = POST, req_url = [Lit (API_URL @ ''invoices.json'')],
                      req_headers = hs, req_json = Some p, req_data = None\<rparr>])
                    \<lparr>req_method = POST,
                      req_url = [Lit (API_URL @ ''invoices/''), StrOf (inv_id ?iv),
                                 Lit ''/deliver_via_email.json''],
                      req_headers = hs, req_json = None,
                      req_data = Some \<lparr>d_print_type = ''original'', d_locale = ''pe'',
                                       d_recipient = rcp, d_send_copy = True\<rparr>\<rparr> of
                        Inl e \<Rightarrow> Inl e
                      | Inr resp' \<Rightarrow> Inr (ok resp'))"
    by blast
  from c(1) have hs: "hs = [(''X-inFakt-ApiKey'', sample_key)]" and
    p: "p = \<lparr>p_client_id = StrOf (PInt 7), p_payment_method = ''transfer'',
               p_sale_date = ''2024-03-31'', p_invoice_date = ''2024-02-10'',
               p_payment_date = ''2024-04-14'',
               p_services = [\<lparr>svc_name = PStr ''Consulting'', svc_gross_price = PInt 28600,
                               svc_tax_symbol = 23, svc_gtu_id = PInt 12\<rparr>]\<rparr>"
    by (auto simp: sample_create create_request_def)
  from c(2) have rcp: "rcp = PStr ''client@example.com''"
    by (simp add: sample_recipient)
  from c(4) have "fst ?cs = Inr True"
    by (simp add: sample_world_def sample_remote_def ok_iff)
  with c(3) have "?cs
       = (Inr True,
          [\<lparr>req_method = POST,
            req_url = [Lit ''https://api.infakt.pl:443/api/v3/invoices.json''],
            req_headers = [(''X-inFakt-ApiKey'', sample_key)],
            req_json = Some
              \<lparr>p_client_id = StrOf (PInt 7), p_payment_method = ''transfer'',
               p_sale_date = ''2024-03-31'', p_invoice_date = ''2024-02-10'',
               p_payment_date = ''2024-04-14'',
               p_services = [\<lparr>svc_name = PStr ''Consulting'', svc_gross_price = PInt 28600,
                               svc_tax_symbol = 23, svc_gtu_id = PInt 12\<rparr>]\<rparr>,
            req_data = None\<rparr>,
           \<lparr>req_method = POST,
            req_url = [Lit ''https://api.infakt.pl:443/api/v3/invoices/'', StrOf (PInt 4711),
                       Lit ''/deliver_via_email.json''],
            req_headers = [(''X-inFakt-ApiKey'', sample_key)], req_json = None,
            req_data = Some \<lparr>d_print_type = ''original'', d_locale = ''pe'',
                             d_recipient = PStr ''client@example.com'',
                             d_send_copy = True\<rparr>\<rparr>])"
    by (simp add: prod_eq_iff hs p rcp API_URL_def)
  with A show ?thesis by blast
qed
section \<open>Properties of the invoice record\<close>

lemma getitem_PDict:
  "getitem (PDict kvs) k = (case map_of kvs k of Some v \<Rightarrow> Inr v | None \<Rightarrow> Inl (KeyError k))"
  by (simp add: getitem_def)

lemma Invoice_init_Inr_D:
  assumes "Invoice_init json = Inr iv"
  shows "\<exists>i n idate sdate net tax gross c.
           getitem json ''id'' = Inr i \<and> getitem json ''number'' = Inr n \<and>
           getitem json ''invoice_date'' = Inr idate \<and> getitem json ''sale_date'' = Inr sdate \<and>
           getitem json ''net_price'' = Inr net \<and> getitem json ''tax_price'' = Inr tax \<and>
           getitem json ''gross_price'' = Inr gross \<and> getitem json ''client_id'' = Inr c \<and>
           py_truediv_int net 100 = Inr (inv_net_price iv) \<and>
           py_truediv_int tax 100 = Inr (inv_tax_price iv) \<and>
           py_truediv_int gross 100 = Inr (inv_gross_price iv) \<and>
           inv_id iv = i \<and> inv_number iv = n \<and> inv_invoice_date iv = idate \<and>
           inv_sale_date iv = sdate \<and> inv_client_id iv = c"
  using assms unfolding Invoice_init_def bindE_Inr_iff
  by auto

lemma Invoice_init_keys_present:
  assumes "Invoice_init (PDict kvs) = Inr iv"
  shows "\<forall>k \<in> set invoice_keys. map_of kvs k \<noteq> None"
  using Invoice_init_Inr_D[OF assms]
  by (auto simp: getitem_PDict invoice_keys_def split: option.splits)

lemma Invoice_init_first_missing:
  assumes miss: "first_missing_key kvs = Some k"
    and net: "\<forall>v. map_of kvs ''net_price'' = Some v \<longrightarrow> divides_by_100 v"
    and tax: "\<forall>v. map_of kvs ''tax_price'' = Some v \<longrightarrow> divides_by_100 v"
    and gross: "\<forall>v. map_of kvs ''gross_price'' = Some v \<longrightarrow> divides_by_100 v"
  shows "Invoice_init (PDict kvs) = Inl (KeyError k)"
proof -
  have div: "\<And>key v. map_of kvs key = Some v \<Longrightarrow> divides_by_100 v \<Longrightarrow>
               \<exists>r. py_truediv_int v 100 = Inr r"
    by (auto simp: divides_by_100_def split: sum.splits)
  show ?thesis
  proof (cases "map_of kvs ''id''")
    case None
    with miss show ?thesis
      by (simp add: first_missing_key_def invoice_keys_def Invoice_init_def getitem_PDict bindE_Inl)
  next
    case i: (Some i)
    show ?thesis
    proof (cases "map_of kvs ''number''")
      case None
      with miss i show ?thesis
        by (simp add: first_missing_key_def invoice_keys_def Invoice_init_def getitem_PDict
              bindE_Inl bindE_Inr)
    next
      case n: (Some n)
      show ?thesis
      proof (cases "map_of kvs ''invoice_date''")
        case None
        with miss i n show ?thesis
          by (simp add: first_missing_key_def invoice_keys_def Invoice_init_def getitem_PDict
                bindE_Inl bindE_Inr)
      next
        case idt: (Some idt)
        show ?thesis
        proof (cases "map_of kvs ''sale_date''")
          case None
          with miss i n idt show ?thesis
            by (simp add: first_missing_key_def invoice_keys_def Invoice_init_def getitem_PDict
                  bindE_Inl bindE_Inr)
        next
          case sd: (Some sd)
          show ?thesis
          proof (cases "map_of kvs ''net_price''")
            case None
            with miss i n idt sd show ?thesis
              by (simp add: first_missing_key_def invoice_keys_def Invoice_init_def
                    getitem_PDict bindE_Inl bindE_Inr)
          next
            case np: (Some np)
            with net div obtain rn where rn: "py_truediv_int np 100 = Inr rn" by blast
            show ?thesis
            proof (cases "map_of kvs ''tax_price''")
              case None
              with miss i n idt sd np rn show ?thesis
                by (simp add: first_missing_key_def invoice_keys_def Invoice_init_def
                      getitem_PDict bindE_Inl bindE_Inr)
            next
              case tp: (Some tp)
              with tax div obtain rt where rt: "py_truediv_int tp 100 = Inr rt" by blast
              show ?thesis
              proof (cases "map_of kvs ''gross_price''")
                case None
                with miss i n idt sd np rn tp rt show ?thesis
                  by (simp add: first_missing_key_def invoice_keys_def Invoice_init_def
                        getitem_PDict bindE_Inl bindE_Inr)
              next
                case gp: (Some gp)
                with gross div obtain rg where rg: "py_truediv_int gp 100 = Inr rg" by blast
                show ?thesis
                proof (cases "map_of kvs ''client_id''")
                  case None
                  with miss i n idt sd np rn tp rt gp rg show ?thesis
                    by (simp add: first_missing_key_def invoice_keys_def Invoice_init_def
                          getitem_PDict bindE_Inl bindE_Inr)
                next
                  case (Some c)
                  with miss i n idt sd np tp gp show ?thesis
                    by (simp add: first_missing_key_def invoice_keys_def)
                qed
              qed
            qed
          qed
        qed
      qed
    qed
  qed
qed

lemma first_missing_key_Some:
  assumes "k \<in> set invoice_keys" "map_of kvs k = None"
  shows "\<exists>k'. first_missing_key kvs = Some k'"
proof (cases "first_missing_key kvs")
  case None
  with assms show ?thesis
    by (auto simp: first_missing_key_def find_None_iff)
qed simp

text \<open>
  Claim C10, amended. An invoice is constructed from a response mapping only when all
  eight keys are present. When one of them is absent the constructor raises and no
  record is produced: it raises the lookup error of the first absent key whenever the
  price fields that are present can be divided by 100 (a price that is not a number, or
  an integer too large for a float, raises its own error when it is reached first).
\<close>

theorem Invoice_init_needs_all_keys:
  "(\<forall>iv. Invoice_init (PDict kvs) = Inr iv \<longrightarrow> (\<forall>k \<in> set invoice_keys. map_of kvs k \<noteq> None))
   \<and> ((\<exists>k \<in> set invoice_keys. map_of kvs k = None) \<longrightarrow>
        (\<exists>e. Invoice_init (PDict kvs) = Inl e))
   \<and> ((\<exists>k \<in> set invoice_keys. map_of kvs k = None) \<and>
       (\<forall>p \<in> {''net_price'', ''tax_price'', ''gross_price''}.
          \<forall>v. map_of kvs p = Some v \<longrightarrow> divides_by_100 v) \<longrightarrow>
        (\<exists>k. first_missing_key kvs = Some k \<and> Invoice_init (PDict kvs) = Inl (KeyError k)))"
proof (intro conjI allI impI)
  fix iv assume "Invoice_init (PDict kvs) = Inr iv"
  then show "\<forall>k \<in> set invoice_keys. map_of kvs k \<noteq> None"
    by (rule Invoice_init_keys_present)
next
  assume a: "\<exists>k \<in> set invoice_keys. map_of kvs k = None"
  show "\<exists>e. Invoice_init (PDict kvs) = Inl e"
  proof (cases "Invoice_init (PDict kvs)")
    case (Inr iv)
    from Invoice_init_keys_present[OF this] a show ?thesis by blast
  qed simp
next
  assume a: "(\<exists>k \<in> set invoice_keys. map_of kvs k = None) \<and>
       (\<forall>p \<in> {''net_price'', ''tax_price'', ''gross_price''}.
          \<forall>v. map_of kvs p = Some v \<longrightarrow> divides_by_100 v)"
  then obtain k where k: "first_missing_key kvs = Some k"
    using first_missing_key_Some by blast
  from a have "Invoice_init (PDict kvs) = Inl (KeyError k)"
    by (intro Invoice_init_first_missing[OF k]) simp_all
  with k show "\<exists>k. first_missing_key kvs = Some k \<and> Invoice_init (PDict kvs) = Inl (KeyError k)"
    by blast
qed

theorem Invoice_init_needs_all_keys_witness:
  "map_of (take 6 (case sample_body of PDict kvs \<Rightarrow> kvs)) ''gross_price'' = None
   \<and> divides_by_100 (PInt 23264) \<and> divides_by_100 (PInt 5351)
   \<and> Invoice_init (PDict (take 6 (case sample_body of PDict kvs \<Rightarrow> kvs)))
       = Inl (KeyError ''gross_price'')"
proof -
  let ?kvs = "take 6 (case sample_body of PDict kvs \<Rightarrow> kvs)"
  have kvs: "?kvs = [(''id'', PInt 4711), (''number'', PStr ''12/03/2024''),
            (''invoice_date'', PStr ''2024-03-31''), (''sale_date'', PStr ''2024-03-31''),
            (''net_price'', PInt 23264), (''tax_price'', PInt 5351)]"
    by (simp add: sample_body_def)
  have h1: "\<exists>k \<in> set invoice_keys. map_of ?kvs k = None"
    unfolding kvs by (simp add: invoice_keys_def)
  have d1: "divides_by_100 (PInt 23264)" by code_simp
  have d2: "divides_by_100 (PInt 5351)" by code_simp
  have h2: "\<forall>p \<in> {''net_price'', ''tax_price'', ''gross_price''}.
          \<forall>v. map_of ?kvs p = Some v \<longrightarrow> divides_by_100 v"
    unfolding kvs using d1 d2 by simp
  have f: "first_missing_key ?kvs = Some ''gross_price''"
    unfolding kvs by (simp add: first_missing_key_def invoice_keys_def)
  from Invoice_init_needs_all_keys[of ?kvs] h1 h2
  have "\<exists>k. first_missing_key ?kvs = Some k \<and> Invoice_init (PDict ?kvs) = Inl (KeyError k)"
    by blast
  moreover have "map_of ?kvs ''gross_price'' = None"
    unfolding kvs by simp
  ultimately show ?thesis
    using f d1 d2 by auto
qed

text \<open>
  The claim as it was stated fails on a body whose net price is a string and that has
  no tax price: the constructor stops at the division with a type error, before any
  lookup fails.
\<close>

theorem Invoice_init_lookup_error_counterexample:
  "map_of malformed_body ''tax_price'' = None
   \<and> Invoice_init (PDict malformed_body) = Inl TypeError"
  by (simp add: malformed_body_def Invoice_init_def getitem_PDict bindE_Inl bindE_Inr
        py_truediv_int_def)

section \<open>Properties of the currency conversion\<close>

lemma float_of_int_100: "float_of_int 100 = Inr (Finite 100)"
  by code_simp

lemma py_mul_int_float:
  "py_mul_int (PFloat (Finite x)) 100 = Inr (PFloat (to_binary64 (x * 100)))"
  by (simp add: py_mul_int_def float_of_int_100 bindE_Inr float_mul_def)

lemma py_truediv_int_PInt:
  assumes "py_truediv_int (PInt m) 100 = Inr r"
  shows "r = PFloat (to_binary64 (of_int m / 100))"
  using assms
  by (auto simp: py_truediv_int_def int_truediv_def split: pyfloat.splits)

lemma binary64_286_15: "to_binary64 (28615 / 100) = Finite (2517002018304819 / 8796093022208)"
  by code_simp

text \<open>
  What the code does with the amounts: the single service entry of the transmitted
  payload carries the product \<open>gross_price * 100\<close> as Python computes it, exactly
  \<open>a * 100\<close> for an integer amount \<open>a\<close> and the binary64 rounding of the product for a
  float amount; an invoice built from a response with integer minor units \<open>m\<close> stores
  the float nearest to \<open>m / 100\<close>.
\<close>

lemma create_invoice_sends_product:
  "(\<forall>req. snd (create_invoice w g sn cid sd idt pd pdays gtu tr) = tr @ [req] \<longrightarrow>
      (\<exists>p s. req_json req = Some p \<and> p_services p = [s] \<and>
              py_mul_int g 100 = Inr (svc_gross_price s)))
   \<and> py_mul_int (PInt a) 100 = Inr (PInt (a * 100))
   \<and> py_mul_int (PFloat (Finite x)) 100 = Inr (PFloat (to_binary64 (x * 100)))
   \<and> (\<forall>iv. Invoice_init json = Inr iv \<longrightarrow>
        (\<forall>m. getitem json ''gross_price'' = Inr (PInt m) \<longrightarrow>
              inv_gross_price iv = PFloat (to_binary64 (of_int m / 100))) \<and>
        (\<forall>m. getitem json ''net_price'' = Inr (PInt m) \<longrightarrow>
              inv_net_price iv = PFloat (to_binary64 (of_int m / 100))) \<and>
        (\<forall>m. getitem json ''tax_price'' = Inr (PInt m) \<longrightarrow>
              inv_tax_price iv = PFloat (to_binary64 (of_int m / 100))))"
proof (intro conjI allI impI)
  fix req
  assume "snd (create_invoice w g sn cid sd idt pd pdays gtu tr) = tr @ [req]"
  from create_invoice_sent[OF this] obtain hs p where
    p: "create_invoice_payload w g sn cid sd idt pd pdays gtu = Inr p" and
    req: "req = create_request hs p"
    by blast
  from create_invoice_payload_gross[OF p] req
  show "\<exists>p s. req_json req = Some p \<and> p_services p = [s] \<and>
              py_mul_int g 100 = Inr (svc_gross_price s)"
    by (auto simp: create_request_def)
next
  show "py_mul_int (PInt a) 100 = Inr (PInt (a * 100))"
    by (simp add: py_mul_int_def)
next
  show "py_mul_int (PFloat (Finite x)) 100 = Inr (PFloat (to_binary64 (x * 100)))"
    by (rule py_mul_int_float)
next
  fix iv m
  assume "Invoice_init json = Inr iv" "getitem json ''gross_price'' = Inr (PInt m)"
  with Invoice_init_Inr_D[of json iv]
  show "inv_gross_price iv = PFloat (to_binary64 (of_int m / 100))"
    by (auto dest: py_truediv_int_PInt)
next
  fix iv m
  assume "Invoice_init json = Inr iv" "getitem json ''net_price'' = Inr (PInt m)"
  with Invoice_init_Inr_D[of json iv]
  show "inv_net_price iv = PFloat (to_binary64 (of_int m / 100))"
    by (auto dest: py_truediv_int_PInt)
next
  fix iv m
  assume "Invoice_init json = Inr iv" "getitem json ''tax_price'' = Inr (PInt m)"
  with Invoice_init_Inr_D[of json iv]
  show "inv_tax_price iv = PFloat (to_binary64 (of_int m / 100))"
    by (auto dest: py_truediv_int_PInt)
qed

text \<open>
  Claim C2. The amount is given in the major unit and is to be transmitted in minor
  units (grosz), that is, multiplied by 100. For the amount 286.15 (the float nearest to
  it) the code does not transmit 28615: \<open>create_invoice\<close> sends the binary64 product,
  which is \<open>28615 - 2\<^sup>-\<^sup>3\<^sup>8\<close> (printed 28614.999999999996), because the product is
  not rounded to a whole number of grosz.
\<close>

theorem minor_unit_conversion_defect:
  "to_binary64 (28615 / 100) = Finite (2517002018304819 / 8796093022208)
   \<and> create_invoice sample_world (PFloat (Finite (2517002018304819 / 8796093022208)))
       None None None None None None None [] =
     (Inr \<lparr>inv_id = PInt 4711, inv_number = PStr ''12/03/2024'',
           inv_invoice_date = PStr ''2024-03-31'', inv_sale_date = PStr ''2024-03-31'',
           inv_net_price = PFloat (Finite (2046323080686469 / 8796093022208)),
           inv_tax_price = PFloat (Finite (7530863001893601 / 140737488355328)),
           inv_gross_price = PFloat (Finite (2517002018304819 / 8796093022208)),
           inv_client_id = PInt 7\<rparr>,
      [\<lparr>req_method = POST,
        req_url = [Lit ''https://api.infakt.pl:443/api/v3/invoices.json''],
        req_headers = [(''X-inFakt-ApiKey'', sample_key)],
        req_json = Some
          \<lparr>p_client_id = StrOf (PInt 7), p_payment_method = ''transfer'',
           p_sale_date = ''2024-03-31'', p_invoice_date = ''2024-03-31'',
           p_payment_date = ''2024-04-14'',
           p_services = [\<lparr>svc_name = PStr ''Consulting'',
                           svc_gross_price = PFloat (Finite (7865631307202559 / 274877906944)),
                           svc_tax_symbol = 23, svc_gtu_id = PInt 12\<rparr>]\<rparr>,
        req_data = None\<rparr>])
   \<and> (7865631307202559 / 274877906944 :: rat) = 28615 - 1 / 2 ^ 38"
proof (intro conjI)
  show "to_binary64 (28615 / 100) = Finite (2517002018304819 / 8796093022208)"
    by (rule binary64_286_15)
  show "create_invoice sample_world (PFloat (Finite (2517002018304819 / 8796093022208)))
       None None None None None None None [] =
     (Inr \<lparr>inv_id = PInt 4711, inv_number = PStr ''12/03/2024'',
           inv_invoice_date = PStr ''2024-03-31'', inv_sale_date = PStr ''2024-03-31'',
           inv_net_price = PFloat (Finite (2046323080686469 / 8796093022208)),
           inv_tax_price = PFloat (Finite (7530863001893601 / 140737488355328)),
           inv_gross_price = PFloat (Finite (2517002018304819 / 8796093022208)),
           inv_client_id = PInt 7\<rparr>,
      [\<lparr>req_method = POST,
        req_url = [Lit ''https://api.infakt.pl:443/api/v3/invoices.json''],
        req_headers = [(''X-inFakt-ApiKey'', sample_key)],
        req_json = Some
          \<lparr>p_client_id = StrOf (PInt 7), p_payment_method = ''transfer'',
           p_sale_date = ''2024-03-31'', p_invoice_date = ''2024-03-31'',
           p_payment_date = ''2024-04-14'',
           p_services = [\<lparr>svc_name = PStr ''Consulting'',
                           svc_gross_price = PFloat (Finite (7865631307202559 / 274877906944)),
                           svc_tax_symbol = 23, svc_gtu_id = PInt 12\<rparr>]\<rparr>,
        req_data = None\<rparr>])"
    by code_simp
  show "(7865631307202559 / 274877906944 :: rat) = 28615 - 1 / 2 ^ 38"
    by simp
qed
section \<open>Properties of the date arithmetic\<close>

subsection \<open>Months and digits\<close>

lemma month_cases:
  assumes "1 \<le> m" "m \<le> 12"
  obtains "m = 1" | "m = 2" | "m = 3" | "m = 4" | "m = 5" | "m = 6"
    | "m = 7" | "m = 8" | "m = 9" | "m = 10" | "m = 11" | "m = (12::int)"
proof -
  from assms have "m = 1 \<or> m = 2 \<or> m = 3 \<or> m = 4 \<or> m = 5 \<or> m = 6 \<or> m = 7 \<or> m = 8
      \<or> m = 9 \<or> m = 10 \<or> m = 11 \<or> m = 12"
    by arith
  with that show thesis by blast
qed

lemma days_in_month_last_day:
  assumes "1 \<le> m" "m \<le> 12"
  shows "days_in_month y m = last_day y m"
  using assms
  by (cases m rule: month_cases) (simp_all add: days_in_month_def last_day_def DAYS_IN_MONTH_def)

lemma monthrange_last_day:
  assumes "1 \<le> m" "m \<le> 12"
  shows "monthrange_ndays y m = Inr (last_day y m)"
  using assms
  by (cases m rule: month_cases)
     (simp_all add: monthrange_ndays_def last_day_def mdays_def isleap_def is_leap_def)

lemma last_day_bounds: "28 \<le> last_day y m \<and> last_day y m \<le> 31"
  by (simp add: last_day_def)

lemma digit_cases:
  assumes "k < 10"
  obtains "k = 0" | "k = 1" | "k = 2" | "k = 3" | "k = 4" | "k = 5"
    | "k = 6" | "k = 7" | "k = 8" | "k = (9::nat)"
proof -
  from assms have "k = 0 \<or> k = 1 \<or> k = 2 \<or> k = 3 \<or> k = 4 \<or> k = 5 \<or> k = 6 \<or> k = 7
      \<or> k = 8 \<or> k = 9"
    by arith
  with that show thesis by blast
qed

lemma digit_char_not_sign:
  assumes "k < 10"
  shows "digit_char k \<noteq> CHR ''+'' \<and> digit_char k \<noteq> CHR ''-''"
  using assms by (cases k rule: digit_cases) (simp_all add: digit_char_def)

lemma digit_char_ascii:
  assumes "k < 10"
  shows "ascii_digit (digit_char k) \<and> digit_val (digit_char k) = int k
         \<and> digit_char k \<noteq> CHR ''-''"
  using assms
  by (cases k rule: digit_cases) (simp_all add: digit_char_def ascii_digit_def digit_val_def)

lemma nat_digits_small: "n < 10 \<Longrightarrow> nat_digits n = [digit_char n]"
  by simp

lemma nat_digits_step:
  "10 \<le> n \<Longrightarrow> nat_digits n = nat_digits (n div 10) @ [digit_char (n mod 10)]"
  by (subst nat_digits.simps) simp

lemma zfill_two_digits:
  assumes "0 \<le> n" "n \<le> 99"
  shows "zfill 2 (str_int n) = two_digits n"
proof (cases "n < 10")
  case True
  with assms have lt: "nat n < 10" by simp
  then have "str_int n = [digit_char (nat n)]"
    using assms by (simp add: str_int_def)
  moreover from lt have "nat n div 10 mod 10 = 0" "nat n mod 10 = nat n" by simp_all
  ultimately show ?thesis
    using digit_char_not_sign[OF lt] by (simp add: zfill_def two_digits_def digit_char_def)
next
  case False
  with assms have b: "10 \<le> nat n" "nat n div 10 < 10" by simp_all
  then have "str_int n = [digit_char (nat n div 10), digit_char (nat n mod 10)]"
    using assms by (simp add: str_int_def nat_digits_step nat_digits_small del: nat_digits.simps)
  moreover from b have "nat n div 10 mod 10 = nat n div 10" by simp
  ultimately show ?thesis
    by (simp add: zfill_def two_digits_def)
qed

lemma str_int_four_digits:
  assumes "1000 \<le> y" "y \<le> 9999"
  shows "str_int y = four_digits y"
proof -
  from assms have b: "10 \<le> nat y" "10 \<le> nat y div 10" "10 \<le> nat y div 10 div 10"
    "nat y div 10 div 10 div 10 < 10"
    by simp_all
  have e: "nat y div 10 div 10 = nat y div 100" "nat y div 10 div 10 div 10 = nat y div 1000"
    by (simp_all add: div_mult2_eq[symmetric])
  from b have "nat_digits (nat y) =
      [digit_char (nat y div 10 div 10 div 10), digit_char (nat y div 10 div 10 mod 10),
       digit_char (nat y div 10 mod 10), digit_char (nat y mod 10)]"
    by (simp add: nat_digits_step nat_digits_small del: nat_digits.simps)
  moreover from b e have "nat y div 1000 mod 10 = nat y div 1000" by simp
  ultimately show ?thesis
    using assms e by (simp add: str_int_def four_digits_def)
qed

subsection \<open>From an ordinal back to the date\<close>

lemma divmod_unique:
  fixes n :: int
  assumes "n = q * k + r" "0 \<le> r" "r < k"
  shows "n div k = q" "n mod k = r"
proof -
  from assms have "n div k = (r + q * k) div k" by (simp add: add.commute)
  also from assms have "\<dots> = q" by simp
  finally show "n div k = q" .
  from assms have "n mod k = (r + q * k) mod k" by (simp add: add.commute)
  also from assms have "\<dots> = r" by simp
  finally show "n mod k = r" .
qed

lemma cycle_lengths: "DI400Y = 146097" "DI100Y = 36524" "DI4Y = 1461"
  by (simp_all add: DI400Y_def DI100Y_def DI4Y_def days_before_year_def)

lemma month_estimate:
  assumes "1 \<le> m" "m \<le> 12" "1 \<le> d" "d \<le> last_day y m"
    and nd: "nd = days_before_month y m + d - 1"
  shows "(nd + 50) div 32 = m \<or> ((nd + 50) div 32 = m + 1 \<and> m < 12)"
  using assms(1,2)
proof (cases m rule: month_cases)
  case 1 with assms show ?thesis
    by (simp add: last_day_def days_before_month_def DAYS_BEFORE_MONTH_def) arith
next
  case 2 with assms show ?thesis
    by (cases "is_leap y"; simp add: last_day_def days_before_month_def DAYS_BEFORE_MONTH_def; arith)
next
  case 3 with assms show ?thesis
    by (cases "is_leap y"; simp add: last_day_def days_before_month_def DAYS_BEFORE_MONTH_def; arith)
next
  case 4 with assms show ?thesis
    by (cases "is_leap y"; simp add: last_day_def days_before_month_def DAYS_BEFORE_MONTH_def; arith)
next
  case 5 with assms show ?thesis
    by (cases "is_leap y"; simp add: last_day_def days_before_month_def DAYS_BEFORE_MONTH_def; arith)
next
  case 6 with assms show ?thesis
    by (cases "is_leap y"; simp add: last_day_def days_before_month_def DAYS_BEFORE_MONTH_def; arith)
next
  case 7 with assms show ?thesis
    by (cases "is_leap y"; simp add: last_day_def days_before_month_def DAYS_BEFORE_MONTH_def; arith)
next
  case 8 with assms show ?thesis
    by (cases "is_leap y"; simp add: last_day_def days_before_month_def DAYS_BEFORE_MONTH_def; arith)
next
  case 9 with assms show ?thesis
    by (cases "is_leap y"; simp add: last_day_def days_before_month_def DAYS_BEFORE_MONTH_def; arith)
next
  case 10 with assms show ?thesis
    by (cases "is_leap y"; simp add: last_day_def days_before_month_def DAYS_BEFORE_MONTH_def; arith)
next
  case 11 with assms show ?thesis
    by (cases "is_leap y"; simp add: last_day_def days_before_month_def DAYS_BEFORE_MONTH_def; arith)
next
  case 12 with assms show ?thesis
    by (cases "is_leap y"; simp add: last_day_def days_before_month_def DAYS_BEFORE_MONTH_def; arith)
qed


lemma month_from_yday:
  assumes m: "1 \<le> m" "m \<le> 12" and d: "1 \<le> d" "d \<le> last_day y m"
    and lp: "lp = is_leap y"
    and nd: "nd = days_before_month y m + d - 1"
  shows "(let mo = (nd + 50) div 32;
              preceding = DAYS_BEFORE_MONTH ! nat mo + (if 2 < mo \<and> lp then 1 else 0)
          in if nd < preceding
             then \<lparr>year = yr, month = mo - 1,
                   day = nd - (preceding - (DAYS_IN_MONTH ! nat (mo - 1)
                                 + (if mo - 1 = 2 \<and> lp then 1 else 0))) + 1\<rparr>
             else \<lparr>year = yr, month = mo, day = nd - preceding + 1\<rparr>)
         = \<lparr>year = yr, month = m, day = d\<rparr>"
proof -
  from month_estimate[OF m d nd]
  consider (same) "(nd + 50) div 32 = m" | (above) "(nd + 50) div 32 = m + 1" "m < 12"
    by blast
  then show ?thesis
  proof cases
    case same
    from m show ?thesis
      by (cases m rule: month_cases)
         (use same d lp nd in \<open>auto simp: Let_def last_day_def days_before_month_def
            DAYS_BEFORE_MONTH_def DAYS_IN_MONTH_def split: if_splits\<close>)
  next
    case above
    from m show ?thesis
      by (cases m rule: month_cases)
         (use above d lp nd in \<open>auto simp: Let_def last_day_def days_before_month_def
            DAYS_BEFORE_MONTH_def DAYS_IN_MONTH_def split: if_splits\<close>)
  qed
qed

lemma year_cycles:
  fixes y :: int
  defines "a \<equiv> (y - 1) div 400" and "b \<equiv> (y - 1) mod 400 div 100"
    and "c \<equiv> (y - 1) mod 100 div 4" and "e \<equiv> (y - 1) mod 4"
  shows "days_before_year y = 146097 * a + 36524 * b + 1461 * c + 365 * e"
    and "y = 400 * a + 100 * b + 4 * c + e + 1"
    and "0 \<le> b \<and> b < 4 \<and> 0 \<le> c \<and> c < 25 \<and> 0 \<le> e \<and> e < 4"
    and "is_leap y \<longleftrightarrow> e = 3 \<and> (c \<noteq> 24 \<or> b = 3)"
proof -
  define Y where "Y = y - 1"
  define r1 where "r1 = Y mod 400"
  define r2 where "r2 = Y mod 100"
  have r1: "0 \<le> r1" "r1 < 400" and r2: "0 \<le> r2" "r2 < 100"
    by (simp_all add: r1_def r2_def)
  have Y1: "Y = 400 * a + r1"
    by (simp add: a_def r1_def Y_def)
  have "r1 mod 100 = r2"
    unfolding r1_def r2_def by (simp add: mod_mod_cancel)
  then have R1: "r1 = 100 * b + r2"
    unfolding b_def r1_def Y_def[symmetric] by (metis mult_div_mod_eq)
  have "r2 mod 4 = e"
    unfolding r2_def e_def Y_def[symmetric] by (simp add: mod_mod_cancel)
  then have R2: "r2 = 4 * c + e"
    unfolding c_def r2_def Y_def[symmetric] by (metis mult_div_mod_eq)
  have e: "0 \<le> e" "e < 4"
    by (simp_all add: e_def)
  have b: "0 \<le> b" "b < 4"
    using r1 by (simp_all add: b_def r1_def Y_def)
  have c: "0 \<le> c" "c < 25"
    using r2 by (simp_all add: c_def r2_def Y_def)
  from b c e show "0 \<le> b \<and> b < 4 \<and> 0 \<le> c \<and> c < 25 \<and> 0 \<le> e \<and> e < 4"
    by simp
  have Y: "Y = 400 * a + 100 * b + 4 * c + e"
    using Y1 R1 R2 by simp
  then show y: "y = 400 * a + 100 * b + 4 * c + e + 1"
    by (simp add: Y_def)
  have d4: "Y div 4 = 100 * a + 25 * b + c"
    by (rule divmod_unique(1)[where r = e]) (use Y e in simp_all)
  have d100: "Y div 100 = 4 * a + b"
    by (rule divmod_unique(1)[where r = r2]) (use Y R2 r2 in simp_all)
  have d400: "Y div 400 = a"
    by (simp add: a_def Y_def)
  show "days_before_year y = 146097 * a + 36524 * b + 1461 * c + 365 * e"
    unfolding days_before_year_def Let_def Y_def[symmetric] d4 d100 d400
    using Y by simp
  have m4: "y mod 4 = 0 \<longleftrightarrow> e = 3"
  proof (cases "e = 3")
    case True
    have "y mod 4 = 0"
      by (rule divmod_unique(2)[where q = "100 * a + 25 * b + c + 1"]) (use y True in simp_all)
    with True show ?thesis by simp
  next
    case False
    have "y mod 4 = e + 1"
      by (rule divmod_unique(2)[where q = "100 * a + 25 * b + c"]) (use y False e in simp_all)
    with False e show ?thesis by simp
  qed
  have m100: "y mod 100 = 0 \<longleftrightarrow> c = 24 \<and> e = 3"
  proof (cases "c = 24 \<and> e = 3")
    case True
    have "y mod 100 = 0"
      by (rule divmod_unique(2)[where q = "4 * a + b + 1"]) (use y True in simp_all)
    with True show ?thesis by simp
  next
    case False
    have "y mod 100 = 4 * c + e + 1"
      by (rule divmod_unique(2)[where q = "4 * a + b"]) (use y False e c in auto)
    with False e c show ?thesis by auto
  qed
  have m400: "y mod 400 = 0 \<longleftrightarrow> b = 3 \<and> c = 24 \<and> e = 3"
  proof (cases "b = 3 \<and> c = 24 \<and> e = 3")
    case True
    have "y mod 400 = 0"
      by (rule divmod_unique(2)[where q = "a + 1"]) (use y True in simp_all)
    with True show ?thesis by simp
  next
    case False
    have "y mod 400 = 100 * b + 4 * c + e + 1"
      by (rule divmod_unique(2)[where q = a]) (use y False e c b in auto)
    with False e c b show ?thesis by auto
  qed
  show "is_leap y \<longleftrightarrow> e = 3 \<and> (c \<noteq> 24 \<or> b = 3)"
    unfolding is_leap_def m4 m100 m400 by auto
qed

lemma yday_range:
  assumes "1 \<le> m" "m \<le> 12" "1 \<le> d" "d \<le> last_day y m"
  shows "0 \<le> days_before_month y m + d - 1"
    and "days_before_month y m + d - 1 \<le> (if is_leap y then 365 else 364)"
    and "days_before_month y m + d - 1 = 365 \<Longrightarrow> m = 12 \<and> d = 31"
  using assms(1,2)
  by (cases m rule: month_cases;
      use assms(3,4) in \<open>simp add: last_day_def days_before_month_def DAYS_BEFORE_MONTH_def
        split: if_splits\<close>)+

lemma ord2ymd_ymd2ord:
  assumes m: "1 \<le> m" "m \<le> 12" and d: "1 \<le> d" "d \<le> last_day y m"
  shows "ord2ymd (ymd2ord y m d) = \<lparr>year = y, month = m, day = d\<rparr>"
proof -
  define a where "a = (y - 1) div 400"
  define b where "b = (y - 1) mod 400 div 100"
  define c where "c = (y - 1) mod 100 div 4"
  define e where "e = (y - 1) mod 4"
  define doy where "doy = days_before_month y m + d - 1"
  note yc = year_cycles[of y, folded a_def b_def c_def e_def]
  from yc(3) have b: "0 \<le> b" "b < 4" and c: "0 \<le> c" "c < 25" and e: "0 \<le> e" "e < 4"
    by simp_all
  note leap = yc(4)
  from yday_range[OF m d] have doy: "0 \<le> doy" "doy \<le> (if is_leap y then 365 else 364)"
    and last: "doy = 365 \<Longrightarrow> m = 12 \<and> d = 31"
    by (simp_all add: doy_def)
  define n where "n = ymd2ord y m d - 1"
  have n: "n = 146097 * a + 36524 * b + 1461 * c + 365 * e + doy"
    by (simp add: n_def ymd2ord_def yc(1) doy_def)
  define na where "na = 36524 * b + 1461 * c + 365 * e + doy"
  have na_hi: "na < 146097"
    using b c e doy leap by (auto simp: na_def split: if_splits)
  have na_lo: "0 \<le> na"
    using b c e doy by (simp add: na_def)
  have s1: "n div 146097 = a" "n mod 146097 = na"
    by (rule divmod_unique[where q = a and r = na]; use n na_lo na_hi in \<open>simp add: na_def\<close>)+
  show ?thesis
  proof (cases "doy = 365")
    case True
    with doy have lp: "is_leap y" by (simp split: if_splits)
    with leap have e3: "e = 3" and cb: "c \<noteq> 24 \<or> b = 3" by simp_all
    from last[OF True] have md: "m = 12" "d = 31" by simp_all
    show ?thesis
    proof (cases "c = 24")
      case c24: True
      with cb have b3: "b = 3" by simp
      have na: "na = 146096"
        by (simp add: na_def b3 c24 e3 True)
      have s2: "na div 36524 = 4" "na mod 36524 = 0"
        by (simp_all add: na)
      have y: "y = 400 * a + 400"
        using yc(2) by (simp add: b3 c24 e3)
      show ?thesis
        unfolding ord2ymd_def Let_def cycle_lengths n_def[symmetric] s1 s2
        by (simp add: md y)
    next
      case c24: False
      with c have c23: "c \<le> 23" by simp
      define nb where "nb = 1461 * c + 1460"
      have s2: "na div 36524 = b" "na mod 36524 = nb"
        by (rule divmod_unique[where q = b and r = nb];
            use c c23 in \<open>simp add: na_def nb_def e3 True\<close>)+
      have s3: "nb div 1461 = c" "nb mod 1461 = 1460"
        by (rule divmod_unique[where q = c and r = 1460]; simp add: nb_def)+
      have y: "y = 400 * a + 100 * b + 4 * c + 4"
        using yc(2) by (simp add: e3)
      show ?thesis
        unfolding ord2ymd_def Let_def cycle_lengths n_def[symmetric] s1 s2 s3
        using b by (simp add: md y)
    qed
  next
    case False
    with doy have doy364: "doy \<le> 364" by (simp split: if_splits)
    define nb where "nb = 1461 * c + 365 * e + doy"
    define nc where "nc = 365 * e + doy"
    have s2: "na div 36524 = b" "na mod 36524 = nb"
      by (rule divmod_unique[where q = b and r = nb];
          use c e doy doy364 in \<open>simp add: na_def nb_def\<close>)+
    have s3: "nb div 1461 = c" "nb mod 1461 = nc"
      by (rule divmod_unique[where q = c and r = nc];
          use e doy doy364 in \<open>simp add: nb_def nc_def\<close>)+
    have s4: "nc div 365 = e" "nc mod 365 = doy"
      by (rule divmod_unique[where q = e and r = doy];
          use doy doy364 in \<open>simp add: nc_def\<close>)+
    have y: "a * 400 + 1 + b * 100 + c * 4 + e = y"
      using yc(2) by simp
    have lp: "(e = 3 \<and> (c \<noteq> 24 \<or> b = 3)) = is_leap y"
      using leap by simp
    have ne: "\<not> (e = 4 \<or> b = 4)"
      using e b by simp
    show ?thesis
      unfolding ord2ymd_def Let_def cycle_lengths n_def[symmetric] s1 s2 s3 s4 y lp
      using ne month_from_yday[OF m d refl doy_def, of y, unfolded Let_def]
      by simp
  qed
qed

subsection \<open>The day after a date\<close>

lemma div_pred:
  fixes y k :: int
  assumes "0 < k"
  shows "(y - 1) div k = y div k - (if y mod k = 0 then 1 else 0)"
proof (cases "y mod k = 0")
  case True
  then have "k dvd y" by (simp add: mod_eq_0_iff_dvd)
  then have "y div k * k = y" by (rule dvd_div_mult_self)
  then have "y - 1 = (y div k - 1) * k + (k - 1)"
    by (simp add: algebra_simps)
  from divmod_unique(1)[OF this] assms have "(y - 1) div k = y div k - 1" by simp
  with True show ?thesis by simp
next
  case False
  have "0 \<le> y mod k" "y mod k < k"
    using assms by simp_all
  with False have r: "0 \<le> y mod k - 1" "y mod k - 1 < k" by simp_all
  have "y = y div k * k + y mod k" by simp
  then have "y - 1 = y div k * k + (y mod k - 1)" by simp
  from divmod_unique(1)[OF this r] False show ?thesis by simp
qed

lemma days_before_year_Suc:
  "days_before_year (y + 1) = days_before_year y + (if is_leap y then 366 else 365)"
proof -
  have "(4::int) dvd 100" "(100::int) dvd 400" by simp_all
  then have h: "y mod 100 = 0 \<Longrightarrow> y mod 4 = 0" "y mod 400 = 0 \<Longrightarrow> y mod 100 = 0"
    by (auto simp: mod_eq_0_iff_dvd elim: dvd_trans)
  define q4 where "q4 = y div 4"
  define q100 where "q100 = y div 100"
  define q400 where "q400 = y div 400"
  have p: "(y - 1) div 4 = q4 - (if y mod 4 = 0 then 1 else 0)"
       "(y - 1) div 100 = q100 - (if y mod 100 = 0 then 1 else 0)"
       "(y - 1) div 400 = q400 - (if y mod 400 = 0 then 1 else 0)"
    by (simp_all add: div_pred q4_def q100_def q400_def)
  have "days_before_year (y + 1) = y * 365 + q4 - q100 + q400"
    by (simp add: days_before_year_def q4_def q100_def q400_def)
  moreover have "days_before_year y = (y - 1) * 365 + (y - 1) div 4 - (y - 1) div 100 + (y - 1) div 400"
    by (simp add: days_before_year_def Let_def)
  ultimately show ?thesis
    unfolding p is_leap_def using h
    by (cases "y mod 4 = 0"; cases "y mod 100 = 0"; cases "y mod 400 = 0"; simp)
qed


lemma days_before_month_Suc:
  assumes "1 \<le> m" "m \<le> 11"
  shows "days_before_month y (m + 1) = days_before_month y m + last_day y m"
proof -
  from assms have "m = 1 \<or> m = 2 \<or> m = 3 \<or> m = 4 \<or> m = 5 \<or> m = 6 \<or> m = 7 \<or> m = 8
      \<or> m = 9 \<or> m = 10 \<or> m = 11"
    by arith
  then show ?thesis
    by (elim disjE) (simp_all add: days_before_month_def last_day_def DAYS_BEFORE_MONTH_def)
qed

lemma days_before_month_12:
  "days_before_month y 12 + last_day y 12 = (if is_leap y then 366 else 365)"
  by (simp add: days_before_month_def last_day_def DAYS_BEFORE_MONTH_def)

lemma toordinal_next_day:
  assumes "calendar_date d"
  shows "toordinal (next_day d) = toordinal d + 1"
proof -
  from assms have m: "1 \<le> month d" "month d \<le> 12" and dd: "day d \<le> last_day (year d) (month d)"
    by (simp_all add: calendar_date_def)
  consider (day) "day d < last_day (year d) (month d)"
    | (month) "day d = last_day (year d) (month d)" "month d < 12"
    | (year) "day d = last_day (year d) (month d)" "month d = 12"
    using m dd by linarith
  then show ?thesis
  proof cases
    case day
    then show ?thesis
      by (simp add: next_day_def toordinal_def ymd2ord_def)
  next
    case month
    with m have "days_before_month (year d) (month d + 1)
                   = days_before_month (year d) (month d) + last_day (year d) (month d)"
      by (intro days_before_month_Suc) simp_all
    with month show ?thesis
      by (simp add: next_day_def toordinal_def ymd2ord_def)
  next
    case year
    have "days_before_month (year d + 1) 1 = 0"
      by (simp add: days_before_month_def DAYS_BEFORE_MONTH_def)
    with year days_before_month_12[of "year d"] days_before_year_Suc[of "year d"]
    show ?thesis
      by (simp add: next_day_def toordinal_def ymd2ord_def)
  qed
qed

lemma calendar_date_next_day:
  assumes "calendar_date d"
  shows "calendar_date (next_day d)"
  using assms last_day_bounds[of "year d" "month d + 1"] last_day_bounds[of "year d + 1" 1]
  by (auto simp: calendar_date_def next_day_def)

lemma ord2ymd_toordinal:
  assumes "calendar_date d"
  shows "ord2ymd (toordinal d) = d"
  using assms ord2ymd_ymd2ord[of "month d" "day d" "year d"]
  by (simp add: calendar_date_def toordinal_def)

subsection \<open>Adding days\<close>

lemma funpow_next_day:
  assumes "calendar_date d"
  shows "calendar_date ((next_day ^^ k) d) \<and> toordinal ((next_day ^^ k) d) = toordinal d + int k"
  by (induction k) (simp_all add: assms calendar_date_next_day toordinal_next_day)

lemma ord2ymd_add:
  assumes "calendar_date d"
  shows "ord2ymd (toordinal d + int k) = (next_day ^^ k) d"
  using funpow_next_day[OF assms, of k] ord2ymd_toordinal[of "(next_day ^^ k) d"]
  by simp

lemma first_date: "calendar_date \<lparr>year = 1, month = 1, day = 1\<rparr>"
  "toordinal \<lparr>year = 1, month = 1, day = 1\<rparr> = 1"
  by (simp_all add: calendar_date_def last_day_def toordinal_def ymd2ord_def
        days_before_year_def days_before_month_def DAYS_BEFORE_MONTH_def)

lemma ord2ymd_positive:
  assumes "1 \<le> k"
  shows "calendar_date (ord2ymd k)" and "toordinal (ord2ymd k) = k"
proof -
  from assms have k: "k = toordinal \<lparr>year = 1, month = 1, day = 1\<rparr> + int (nat (k - 1))"
    by (simp add: first_date)
  have e: "ord2ymd k = (next_day ^^ nat (k - 1)) \<lparr>year = 1, month = 1, day = 1\<rparr>"
    by (subst k) (rule ord2ymd_add[OF first_date(1)])
  from funpow_next_day[OF first_date(1), of "nat (k - 1)"] assms
  show "calendar_date (ord2ymd k)" and "toordinal (ord2ymd k) = k"
    unfolding e by (simp_all add: first_date)
qed

lemma days_before_year_mono:
  assumes "y \<le> y'"
  shows "days_before_year y \<le> days_before_year y'"
  using assms
proof (induction y' rule: int_ge_induct)
  case base
  show ?case by simp
next
  case (step i)
  from days_before_year_Suc[of i] have "days_before_year i \<le> days_before_year (i + 1)"
    by (simp split: if_splits)
  with step show ?case by simp
qed

lemma max_ordinal: "MAXORDINAL = 3652059" "days_before_year 10000 = 3652059"
  by (simp_all add: MAXORDINAL_def ymd2ord_def days_before_year_def days_before_month_def
        DAYS_BEFORE_MONTH_def is_leap_def)

lemma toordinal_bounds:
  assumes "calendar_date d"
  shows "days_before_year (year d) < toordinal d"
    and "toordinal d \<le> days_before_year (year d + 1)"
proof -
  from assms have m: "1 \<le> month d" "month d \<le> 12"
    and dd: "1 \<le> day d" "day d \<le> last_day (year d) (month d)"
    by (simp_all add: calendar_date_def)
  from yday_range(1,2)[OF m dd] days_before_year_Suc[of "year d"]
  show "days_before_year (year d) < toordinal d"
    and "toordinal d \<le> days_before_year (year d + 1)"
    by (simp_all add: toordinal_def ymd2ord_def split: if_splits)
qed

lemma toordinal_range:
  assumes "valid_date d"
  shows "0 < toordinal d" and "toordinal d \<le> MAXORDINAL"
proof -
  from assms have c: "calendar_date d" and y: "1 \<le> year d" "year d \<le> 9999"
    by (simp_all add: valid_date_def calendar_date_def)
  have "days_before_year 1 = 0" by (simp add: days_before_year_def)
  with days_before_year_mono[OF y(1)] toordinal_bounds(1)[OF c]
  show "0 < toordinal d" by simp
  from y have "year d + 1 \<le> 10000" by simp
  from days_before_year_mono[OF this] toordinal_bounds(2)[OF c]
  show "toordinal d \<le> MAXORDINAL" by (simp add: max_ordinal)
qed

lemma valid_date_of_ordinal:
  assumes "0 < k" "k \<le> MAXORDINAL"
  shows "valid_date (ord2ymd k)"
proof -
  from assms have c: "calendar_date (ord2ymd k)" and t: "toordinal (ord2ymd k) = k"
    by (simp_all add: ord2ymd_positive)
  have "year (ord2ymd k) \<le> 9999"
  proof (rule ccontr)
    assume "\<not> year (ord2ymd k) \<le> 9999"
    then have "10000 \<le> year (ord2ymd k)" by simp
    from days_before_year_mono[OF this] toordinal_bounds(1)[OF c] t assms
    show False by (simp add: max_ordinal)
  qed
  with c show ?thesis by (simp add: valid_date_def)
qed

lemma date_add_in_range:
  assumes d: "valid_date d" and r: "0 < toordinal d + n" "toordinal d + n \<le> MAXORDINAL"
  shows "date_add d n = Inr (ord2ymd (toordinal d + n))"
    and "valid_date (ord2ymd (toordinal d + n))"
    and "days_after d n (ord2ymd (toordinal d + n))"
proof -
  from d have c: "calendar_date d" by (simp add: valid_date_def)
  show "date_add d n = Inr (ord2ymd (toordinal d + n))"
    using r by (simp add: date_add_def Let_def)
  show v: "valid_date (ord2ymd (toordinal d + n))"
    using r by (rule valid_date_of_ordinal)
  show "days_after d n (ord2ymd (toordinal d + n))"
  proof (cases "0 \<le> n")
    case True
    then have "toordinal d + n = toordinal d + int (nat n)" by simp
    then have "ord2ymd (toordinal d + n) = (next_day ^^ nat n) d"
      using ord2ymd_add[OF c, of "nat n"] by simp
    with True show ?thesis by (simp add: days_after_def)
  next
    case False
    let ?r = "ord2ymd (toordinal d + n)"
    from v have cr: "calendar_date ?r" by (simp add: valid_date_def)
    from r have t: "toordinal ?r = toordinal d + n"
      by (simp add: ord2ymd_positive)
    from False t have "toordinal d = toordinal ?r + int (nat (- n))" by simp
    then have "ord2ymd (toordinal d) = (next_day ^^ nat (- n)) ?r"
      using ord2ymd_add[OF cr, of "nat (- n)"] by simp
    with False c show ?thesis
      by (simp add: days_after_def ord2ymd_toordinal)
  qed
qed

lemma date_add_out_of_range:
  assumes "\<not> (0 < toordinal d + n \<and> toordinal d + n \<le> MAXORDINAL)"
  shows "date_add d n = Inl OverflowError"
  using assms by (auto simp: date_add_def Let_def)

subsection \<open>Parsing what was formatted\<close>

lemma day_cases:
  assumes "1 \<le> d" "d \<le> 31"
  shows "d = 1 \<or> d = 2 \<or> d = 3 \<or> d = 4 \<or> d = 5 \<or> d = 6 \<or> d = 7 \<or> d = 8 \<or> d = 9 \<or> d = 10
    \<or> d = 11 \<or> d = 12 \<or> d = 13 \<or> d = 14 \<or> d = 15 \<or> d = 16 \<or> d = 17 \<or> d = 18 \<or> d = 19
    \<or> d = 20 \<or> d = 21 \<or> d = 22 \<or> d = 23 \<or> d = 24 \<or> d = 25 \<or> d = 26 \<or> d = 27 \<or> d = 28
    \<or> d = 29 \<or> d = 30 \<or> d = (31::int)"
  using assms by arith

lemma match_month_two_digits:
  assumes "1 \<le> m" "m \<le> 12"
  shows "match_month (two_digits m) = Some m"
  using assms
  by (cases m rule: month_cases)
     (simp_all add: match_month_def two_digits_def digit_char_def digit_val_def)

lemma match_day_two_digits:
  assumes "1 \<le> d" "d \<le> 31"
  shows "match_day (two_digits d) = Some d"
  using day_cases[OF assms]
  by (elim disjE)
     (simp_all add: match_day_def two_digits_def digit_char_def digit_val_def ascii_digit_def)

lemma four_digits_value:
  assumes "0 \<le> y" "y \<le> 9999"
  shows "1000 * int (nat y div 1000 mod 10) + 100 * int (nat y div 100 mod 10)
           + 10 * int (nat y div 10 mod 10) + int (nat y mod 10) = y"
proof -
  define k where "k = nat y"
  from assms have k: "k \<le> 9999" by (simp add: k_def)
  have e1: "k = 10 * (k div 10) + k mod 10" by simp
  have "k div 10 = 10 * (k div 10 div 10) + k div 10 mod 10" by simp
  then have e2: "k div 10 = 10 * (k div 100) + k div 10 mod 10"
    by (simp add: div_mult2_eq[symmetric])
  have "k div 100 = 10 * (k div 100 div 10) + k div 100 mod 10" by simp
  then have e3: "k div 100 = 10 * (k div 1000) + k div 100 mod 10"
    by (simp add: div_mult2_eq[symmetric])
  from k have e4: "k div 1000 mod 10 = k div 1000" by simp
  from e1 e2 e3 have
    "1000 * (k div 1000) + 100 * (k div 100 mod 10) + 10 * (k div 10 mod 10) + k mod 10 = k"
    by linarith
  then have "int (1000 * (k div 1000 mod 10) + 100 * (k div 100 mod 10)
                + 10 * (k div 10 mod 10) + k mod 10) = int k"
    by (simp only: e4)
  with assms show ?thesis
    by (simp add: k_def)
qed

lemma split_on_two_fields:
  assumes "c \<notin> set s" "c \<notin> set t"
  shows "split_on c (s @ c # t) = [s, t]"
proof -
  have "split_on c t = [t]" if "c \<notin> set t" for t
    using that by (induction t) auto
  with assms show ?thesis
    by (simp add: split_on_prefix)
qed

lemma strptime_iso_format:
  assumes "valid_date d"
  shows "strptime_ymd (iso_format (year d) (month d) (day d)) = Inr d"
proof -
  from assms have y: "1 \<le> year d" "year d \<le> 9999" and m: "1 \<le> month d" "month d \<le> 12"
    and dd: "1 \<le> day d" "day d \<le> last_day (year d) (month d)"
    by (simp_all add: valid_date_def calendar_date_def)
  from dd last_day_bounds[of "year d" "month d"] have d31: "day d \<le> 31" by simp
  have dg: "\<And>k. ascii_digit (digit_char (k mod 10))"
    "\<And>k. digit_val (digit_char (k mod 10)) = int (k mod 10)"
    "\<And>k. digit_char (k mod 10) \<noteq> CHR ''-''"
    using digit_char_ascii by simp_all
  have sp: "split_on CHR ''-'' (two_digits (month d) @ CHR ''-'' # two_digits (day d))
              = [two_digits (month d), two_digits (day d)]"
    by (rule split_on_two_fields) (simp_all add: two_digits_def dg(3)[symmetric])
  have yv: "1000 * digit_val (digit_char (nat (year d) div 1000 mod 10))
            + 100 * digit_val (digit_char (nat (year d) div 100 mod 10))
            + 10 * digit_val (digit_char (nat (year d) div 10 mod 10))
            + digit_val (digit_char (nat (year d) mod 10)) = year d"
    unfolding dg using four_digits_value[of "year d"] y by simp
  have dn: "date_new (year d) (month d) (day d) = Inr d"
    using y m dd by (simp add: date_new_def MINYEAR_def MAXYEAR_def days_in_month_last_day)
  show ?thesis
    unfolding strptime_ymd_def iso_format_def four_digits_def
    using sp yv dn
    by (simp add: dg match_month_two_digits[OF m] match_day_two_digits[OF dd(1) d31])
qed

subsection \<open>The payment date\<close>

lemma format_valid_date:
  assumes "valid_date r"
  shows "zfill 2 (str_int (month r)) = two_digits (month r)"
    and "zfill 2 (str_int (day r)) = two_digits (day r)"
    and "1000 \<le> year r \<Longrightarrow> str_int (year r) = four_digits (year r)"
proof -
  from assms have y: "year r \<le> 9999" and m: "1 \<le> month r" "month r \<le> 12"
    and dd: "1 \<le> day r" "day r \<le> last_day (year r) (month r)"
    by (simp_all add: valid_date_def calendar_date_def)
  from dd last_day_bounds[of "year r" "month r"] have d31: "day r \<le> 31" by simp
  show "zfill 2 (str_int (month r)) = two_digits (month r)"
    using m by (intro zfill_two_digits) simp_all
  show "zfill 2 (str_int (day r)) = two_digits (day r)"
    using dd d31 by (intro zfill_two_digits) simp_all
  show "str_int (year r) = four_digits (year r)" if "1000 \<le> year r"
    using that y by (rule str_int_four_digits)
qed

lemma get_payment_date_iso:
  assumes "valid_date d"
  shows "get_payment_date (iso_format (year d) (month d) (day d)) n =
           (if 0 < toordinal d + n \<and> toordinal d + n \<le> MAXORDINAL
            then Inr (str_int (year (ord2ymd (toordinal d + n))) @ ''-''
                      @ two_digits (month (ord2ymd (toordinal d + n))) @ ''-''
                      @ two_digits (day (ord2ymd (toordinal d + n))))
            else Inl OverflowError)"
proof (cases "0 < toordinal d + n \<and> toordinal d + n \<le> MAXORDINAL")
  case True
  then have r: "0 < toordinal d + n" "toordinal d + n \<le> MAXORDINAL" by simp_all
  from toordinal_range[OF assms] r have "\<bar>n\<bar> \<le> 999999999"
    by (simp add: max_ordinal)
  then have td: "timedelta_days n = Inr n"
    by (simp add: timedelta_days_def)
  note da = date_add_in_range[OF assms r]
  from format_valid_date(1,2)[OF da(2)] True show ?thesis
    by (simp add: get_payment_date_def strptime_iso_format[OF assms] bindE_Inr td da(1))
next
  case False
  then have "date_add d n = Inl OverflowError"
    by (rule date_add_out_of_range)
  then have "bindE (timedelta_days n) (date_add d) = Inl OverflowError"
    by (simp add: timedelta_days_def bindE_Inl bindE_Inr)
  with False show ?thesis
    by (simp add: get_payment_date_def strptime_iso_format[OF assms] bindE_Inr bindE_Inl)
qed

subsection \<open>The default invoice date\<close>

lemma first_of_month_minus_one:
  assumes v: "valid_date today" and m: "2 \<le> month today"
  shows "date_sub \<lparr>year = year today, month = month today, day = 1\<rparr> 1 =
           Inr \<lparr>year = year today, month = month today - 1,
                day = last_day (year today) (month today - 1)\<rparr>"
proof -
  let ?first = "\<lparr>year = year today, month = month today, day = 1\<rparr>"
  let ?prev = "\<lparr>year = year today, month = month today - 1,
                day = last_day (year today) (month today - 1)\<rparr>"
  from v have y: "1 \<le> year today" "year today \<le> 9999" and m12: "month today \<le> 12"
    by (simp_all add: valid_date_def calendar_date_def)
  have vp: "valid_date ?prev"
    using y m m12 last_day_bounds[of "year today" "month today - 1"]
    by (simp add: valid_date_def calendar_date_def)
  from m m12 have "days_before_month (year today) (month today - 1 + 1)
        = days_before_month (year today) (month today - 1)
          + last_day (year today) (month today - 1)"
    by (intro days_before_month_Suc) simp_all
  then have t: "toordinal ?first + - 1 = toordinal ?prev"
    by (simp add: toordinal_def ymd2ord_def)
  from toordinal_range[OF vp] have "date_add ?first (- 1) = Inr (ord2ymd (toordinal ?prev))"
    unfolding date_add_def Let_def t by simp
  with vp show ?thesis
    by (simp add: date_sub_def valid_date_def ord2ymd_toordinal)
qed

lemma get_default_invoice_date_target:
  assumes "valid_date today"
  shows "get_default_invoice_date today =
           Inr (str_int (fst (target_month today)) @ ''-''
                @ two_digits (snd (target_month today)) @ ''-''
                @ two_digits (last_day (fst (target_month today)) (snd (target_month today))))"
proof -
  from assms have y: "1 \<le> year today" "year today \<le> 9999"
    and m: "1 \<le> month today" "month today \<le> 12"
    by (simp_all add: valid_date_def calendar_date_def)
  have first: "date_new (year today) (month today) 1
                 = Inr \<lparr>year = year today, month = month today, day = 1\<rparr>"
    using y m last_day_bounds[of "year today" "month today"]
    by (simp add: date_new_def MINYEAR_def MAXYEAR_def days_in_month_last_day)
  have fmt: "bindE (monthrange_ndays ty tm) (\<lambda>d.
               Inr (str_int ty @ CHR ''-'' # zfill 2 (str_int tm) @ CHR ''-'' # zfill 2 (str_int d)))
             = Inr (str_int ty @ CHR ''-'' # two_digits tm @ CHR ''-'' # two_digits (last_day ty tm))"
    if "1 \<le> tm" "tm \<le> 12" for ty tm
  proof -
    from that have "zfill 2 (str_int tm) = two_digits tm"
      by (intro zfill_two_digits) simp_all
    moreover from last_day_bounds[of ty tm]
    have "zfill 2 (str_int (last_day ty tm)) = two_digits (last_day ty tm)"
      by (intro zfill_two_digits) simp_all
    ultimately show ?thesis
      by (simp add: monthrange_last_day[OF that] bindE_Inr)
  qed
  show ?thesis
  proof (cases "month today = 1")
    case True
    then show ?thesis
      unfolding get_default_invoice_date_def first bindE_Inr
      by (simp add: target_month_def bindE_Inr fmt)
  next
    case False
    with m have m2: "2 \<le> month today" by simp
    have td: "timedelta_days 1 = Inr 1" by (simp add: timedelta_days_def)
    from False m m2 show ?thesis
      unfolding get_default_invoice_date_def first bindE_Inr
      by (simp add: target_month_def bindE_Inr td first_of_month_minus_one[OF assms m2] fmt)
  qed
qed

section \<open>The default invoice date and the payment date\<close>

text \<open>
  Claim C1. For every date \<open>today\<close> of the calendar, the default invoice date is the last
  calendar day of the target month: December of the previous year when today is in
  January before the 15th, January of the same year from the 15th of January on, the
  previous month of the same year before the 15th of any other month, and today's own
  month otherwise. It is written as the year, the two-digit month and the two-digit day,
  which is the form \<open>YYYY-MM-DD\<close> whenever the target year has four digits, as it has for
  every date that the system clock gives.
\<close>

theorem default_invoice_date_target:
  assumes "valid_date today"
  shows "get_default_invoice_date today =
           Inr (str_int (fst (target_month today)) @ ''-''
                @ two_digits (snd (target_month today)) @ ''-''
                @ two_digits (last_day (fst (target_month today)) (snd (target_month today))))
       \<and> (1000 \<le> fst (target_month today) \<longrightarrow>
            get_default_invoice_date today =
              Inr (iso_format (fst (target_month today)) (snd (target_month today))
                     (last_day (fst (target_month today)) (snd (target_month today)))))"
proof -
  from assms have "fst (target_month today) \<le> 9999"
    by (simp add: target_month_def valid_date_def)
  then have "str_int (fst (target_month today)) = four_digits (fst (target_month today))"
    if "1000 \<le> fst (target_month today)"
    using that by (intro str_int_four_digits) simp_all
  with get_default_invoice_date_target[OF assms] show ?thesis
    by (simp add: iso_format_def)
qed

theorem default_invoice_date_target_witness:
  "valid_date \<lparr>year = 2024, month = 1, day = 10\<rparr>
   \<and> get_default_invoice_date \<lparr>year = 2024, month = 1, day = 10\<rparr> = Inr ''2023-12-31''
   \<and> get_default_invoice_date \<lparr>year = 2024, month = 1, day = 20\<rparr> = Inr ''2024-01-31''
   \<and> get_default_invoice_date \<lparr>year = 2024, month = 3, day = 10\<rparr> = Inr ''2024-02-29''
   \<and> get_default_invoice_date \<lparr>year = 2024, month = 3, day = 20\<rparr> = Inr ''2024-03-31''
   \<and> get_default_invoice_date \<lparr>year = 2024, month = 3, day = 15\<rparr> = Inr ''2024-03-31''"
  using default_invoice_date_target[THEN conjunct2, of "\<lparr>year = 2024, month = 1, day = 10\<rparr>"]
    default_invoice_date_target[THEN conjunct2, of "\<lparr>year = 2024, month = 1, day = 20\<rparr>"]
    default_invoice_date_target[THEN conjunct2, of "\<lparr>year = 2024, month = 3, day = 10\<rparr>"]
    default_invoice_date_target[THEN conjunct2, of "\<lparr>year = 2024, month = 3, day = 20\<rparr>"]
    default_invoice_date_target[THEN conjunct2, of "\<lparr>year = 2024, month = 3, day = 15\<rparr>"]
  by (simp add: valid_date_def calendar_date_def target_month_def last_day_def is_leap_def
        iso_format_def four_digits_def two_digits_def digit_char_def)

text \<open>
  Claim C5, amended. For every date written \<open>YYYY-MM-DD\<close> and every number of payment
  days for which the resulting day lies between 0001-01-01 and 9999-12-31, the payment
  date is the date that many days after the invoice date in the calendar (before it for
  a negative number), months and years carried by \<open>next_day\<close>, written as the year, the
  two-digit month and the two-digit day; this is the form \<open>YYYY-MM-DD\<close> when the
  resulting year has four digits. For every other number of days the function raises
  OverflowError.
\<close>

theorem payment_date_calendar:
  assumes "valid_date d"
  shows "(0 < toordinal d + n \<and> toordinal d + n \<le> MAXORDINAL \<longrightarrow>
           (\<exists>r. valid_date r \<and> days_after d n r \<and>
                get_payment_date (iso_format (year d) (month d) (day d)) n =
                  Inr (str_int (year r) @ ''-'' @ two_digits (month r) @ ''-''
                       @ two_digits (day r)) \<and>
                (1000 \<le> year r \<longrightarrow>
                   get_payment_date (iso_format (year d) (month d) (day d)) n =
                     Inr (iso_format (year r) (month r) (day r)))))
       \<and> (\<not> (0 < toordinal d + n \<and> toordinal d + n \<le> MAXORDINAL) \<longrightarrow>
            get_payment_date (iso_format (year d) (month d) (day d)) n = Inl OverflowError)"
proof (intro conjI impI)
  assume r: "0 < toordinal d + n \<and> toordinal d + n \<le> MAXORDINAL"
  let ?r = "ord2ymd (toordinal d + n)"
  from r have v: "valid_date ?r" and a: "days_after d n ?r"
    using date_add_in_range(2,3)[OF assms] by simp_all
  from r have g: "get_payment_date (iso_format (year d) (month d) (day d)) n =
                  Inr (str_int (year ?r) @ ''-'' @ two_digits (month ?r) @ ''-''
                       @ two_digits (day ?r))"
    by (simp add: get_payment_date_iso[OF assms])
  have "get_payment_date (iso_format (year d) (month d) (day d)) n =
          Inr (iso_format (year ?r) (month ?r) (day ?r))" if "1000 \<le> year ?r"
    using g format_valid_date(3)[OF v that] by (simp add: iso_format_def)
  with v a g
  show "\<exists>r. valid_date r \<and> days_after d n r \<and>
                get_payment_date (iso_format (year d) (month d) (day d)) n =
                  Inr (str_int (year r) @ ''-'' @ two_digits (month r) @ ''-''
                       @ two_digits (day r)) \<and>
                (1000 \<le> year r \<longrightarrow>
                   get_payment_date (iso_format (year d) (month d) (day d)) n =
                     Inr (iso_format (year r) (month r) (day r)))"
    by blast
next
  assume "\<not> (0 < toordinal d + n \<and> toordinal d + n \<le> MAXORDINAL)"
  then show "get_payment_date (iso_format (year d) (month d) (day d)) n = Inl OverflowError"
    by (simp add: get_payment_date_iso[OF assms])
qed

lemma sample_ordinal:
  "toordinal \<lparr>year = 2024, month = 1, day = 31\<rparr> = 738916"
  "ord2ymd 738930 = \<lparr>year = 2024, month = 2, day = 14\<rparr>"
  by code_simp+

lemma fourteen_days_after:
  "(next_day ^^ nat 14) \<lparr>year = 2024, month = 1, day = 31\<rparr>
     = \<lparr>year = 2024, month = 2, day = 14\<rparr>"
proof -
  have "calendar_date \<lparr>year = 2024, month = 1, day = 31\<rparr>"
    by (simp add: calendar_date_def last_day_def)
  from ord2ymd_add[OF this, of "nat 14"] show ?thesis
    by (simp add: sample_ordinal)
qed

theorem payment_date_calendar_witness:
  "valid_date \<lparr>year = 2024, month = 1, day = 31\<rparr>
   \<and> 0 < toordinal \<lparr>year = 2024, month = 1, day = 31\<rparr> + 14
   \<and> toordinal \<lparr>year = 2024, month = 1, day = 31\<rparr> + 14 \<le> MAXORDINAL
   \<and> get_payment_date ''2024-01-31'' 14 = Inr ''2024-02-14''"
proof -
  let ?d = "\<lparr>year = 2024, month = 1, day = 31\<rparr>"
  have v: "valid_date ?d"
    by (simp add: valid_date_def calendar_date_def last_day_def)
  have r: "0 < toordinal ?d + 14 \<and> toordinal ?d + 14 \<le> MAXORDINAL"
    by (simp add: sample_ordinal max_ordinal)
  have i: "iso_format (year ?d) (month ?d) (day ?d) = ''2024-01-31''"
    by (simp add: iso_format_def four_digits_def two_digits_def digit_char_def)
  from payment_date_calendar[OF v, of 14] r obtain r where
    a: "days_after ?d 14 r" and
    g: "1000 \<le> year r \<longrightarrow>
          get_payment_date (iso_format (year ?d) (month ?d) (day ?d)) 14 =
            Inr (iso_format (year r) (month r) (day r))"
    by blast
  from a have "r = \<lparr>year = 2024, month = 2, day = 14\<rparr>"
    using fourteen_days_after by (simp add: days_after_def)
  with g have "get_payment_date ''2024-01-31'' 14 = Inr ''2024-02-14''"
    unfolding i by (simp add: iso_format_def four_digits_def two_digits_def digit_char_def)
  with v r show ?thesis by blast
qed

text \<open>
  The claim as it was stated fails where the sum leaves the range of dates (the function
  raises), and where the resulting year has fewer than four digits.
\<close>

theorem payment_date_counterexample:
  "get_payment_date ''9999-12-31'' 1 = Inl OverflowError
   \<and> get_payment_date ''1000-01-01'' (- 1) = Inr ''999-12-31''"
  by code_simp
end
